theory Spec2Isabelle
  imports Complex_Main "HOL-Library.Multiset"
begin

section \<open>Data model (types.ts, constants.ts)\<close>

text \<open>
  The tower-stacking game is a React component: its state is the set of \<open>useState\<close>
  cells and \<open>useRef\<close> cells of \<open>App\<close>, its operations are the event handlers.
  Each handler is embedded as a function from the state to the updated state.
  A JavaScript \<open>number\<close> that holds a percentage or a time is a \<open>real\<close> (the
  arithmetic of the source is read as exact); counters are \<open>int\<close> or \<open>nat\<close>.
\<close>

datatype GameState = MENU | PLAYING | LEVEL_COMPLETE | GAME_OVER

record Block =
  blk_id :: int
  blk_width :: real
  blk_x :: real
  blk_y :: nat
  blk_color :: string
  isPerfect :: bool

record LevelConfig =
  levelNumber :: nat
  targetBlocks :: nat
  initialWidth :: real
  baseSpeed :: real
  colorPalette :: "string list"

definition BLOCK_HEIGHT :: int where
  "BLOCK_HEIGHT = 40"

definition PERFECT_TOLERANCE :: real where
  "PERFECT_TOLERANCE = 3"

definition MAX_LEVELS :: nat where
  "MAX_LEVELS = 10"

definition COLORS :: "string list list" where
  "COLORS =
    [[''#ef4444'', ''#f87171''],
     [''#f97316'', ''#fb923c''],
     [''#eab308'', ''#facc15''],
     [''#22c55e'', ''#4ade80''],
     [''#06b6d4'', ''#22d3ee''],
     [''#3b82f6'', ''#60a5fa''],
     [''#a855f7'', ''#c084fc''],
     [''#ec4899'', ''#f472b6'']]"

text \<open>The callback of \<open>Array.from\<close> that builds the level with index \<open>i\<close>.\<close>

definition mkLevel :: "nat \<Rightarrow> LevelConfig" where
  "mkLevel i =
    (let levelNum = i + 1 in
     \<lparr> levelNumber = levelNum,
       targetBlocks = 5 + levelNum * 2,
       initialWidth = max 20 (50 - real levelNum * 2),
       baseSpeed = 1 + real levelNum * 0.2,
       colorPalette = COLORS ! (i mod length COLORS) \<rparr>)"

definition LEVELS :: "LevelConfig list" where
  "LEVELS = map mkLevel [0..<MAX_LEVELS]"

section \<open>Component state\<close>

text \<open>
  The feedback banner keeps its \<open>type\<close> only; the displayed text is presentation.
\<close>

datatype FeedbackType = perfect | good | bad

text \<open>
  A callback handed to \<open>setTimeout(\<dots>, 50)\<close> by \<open>nextLevel\<close>. Both callbacks are
  closures of the render in which the button was pressed, so they carry the level index
  of that render: \<open>NextLevelReset k\<close> is the inline callback (it reads
  \<open>LEVELS[k + 1]\<close>), \<open>StartGameOf k\<close> is that render's \<open>startGame\<close> (it reads
  \<open>currentLevelConfig = LEVELS[k]\<close>).
\<close>

datatype Timer = NextLevelReset nat | StartGameOf nat

record State =
  gameState :: GameState
  currentLevelIdx :: nat
  blocks :: "Block list"
  hookX :: real
  currentBlockWidth :: real
  score :: int
  combo :: int
  feedback :: "FeedbackType option"
  cameraY :: int
  startTimeRef :: "real option"
  isDroppingRef :: bool
  timers :: "Timer list"
  feedbackTimers :: nat

definition initialState :: State where
  "initialState =
    \<lparr> gameState = MENU, currentLevelIdx = 0, blocks = [], hookX = 50,
      currentBlockWidth = 0, score = 0, combo = 0, feedback = None, cameraY = 0,
      startTimeRef = None, isDroppingRef = False, timers = [], feedbackTimers = 0 \<rparr>"

definition currentLevelConfig :: "State \<Rightarrow> LevelConfig" where
  "currentLevelConfig st = LEVELS ! currentLevelIdx st"

section \<open>Hook motion\<close>

text \<open>
  \<open>updateHookPosition(time)\<close>: \<open>time\<close> is the timestamp that
  \<open>requestAnimationFrame\<close> passes to \<open>animate\<close>.
\<close>

definition updateHookPosition :: "real \<Rightarrow> State \<Rightarrow> State" where
  "updateHookPosition time st =
    (if gameState st \<noteq> PLAYING then st
     else
       let difficultyMultiplier = 1 + real (length (blocks st)) * 0.05;
           speed = baseSpeed (currentLevelConfig st) * difficultyMultiplier * 0.002;
           range = 45;
           x = 50 + sin (time * speed) * range
       in st\<lparr>hookX := x\<rparr>)"

text \<open>
  \<open>animate(time)\<close>: \<open>!startTimeRef.current\<close> holds for \<open>undefined\<close> and for \<open>0\<close>.
\<close>

definition animate :: "real \<Rightarrow> State \<Rightarrow> State" where
  "animate time st =
    updateHookPosition time
      (if startTimeRef st = None \<or> startTimeRef st = Some 0
       then st\<lparr>startTimeRef := Some time\<rparr> else st)"

section \<open>Game logic\<close>

text \<open>
  \<open>startGame\<close> reads \<open>currentLevelConfig\<close> of the render that created it; \<open>k\<close> is
  the level index of that render.
\<close>

definition startGame :: "nat \<Rightarrow> State \<Rightarrow> State" where
  "startGame k st =
    st\<lparr> blocks := [], score := 0, combo := 0, cameraY := 0,
        currentBlockWidth := initialWidth (LEVELS ! k),
        gameState := PLAYING, startTimeRef := None \<rparr>"

text \<open>The part of \<open>nextLevel\<close> that runs at the click; the rest is queued.\<close>

definition nextLevel :: "State \<Rightarrow> State" where
  "nextLevel st =
    (if currentLevelIdx st < length LEVELS - 1
     then st\<lparr> currentLevelIdx := currentLevelIdx st + 1,
              timers := timers st @ [NextLevelReset (currentLevelIdx st)] \<rparr>
     else st\<lparr> currentLevelIdx := 0,
              timers := timers st @ [StartGameOf (currentLevelIdx st)] \<rparr>)"

text \<open>What a queued callback does when its 50 ms have passed.\<close>

fun runTimer :: "Timer \<Rightarrow> State \<Rightarrow> State" where
  "runTimer (NextLevelReset k) st =
    st\<lparr> blocks := [], score := 0, combo := 0, cameraY := 0,
        currentBlockWidth := initialWidth (LEVELS ! (k + 1)),
        gameState := PLAYING \<rparr>"
| "runTimer (StartGameOf k) st = startGame k st"

definition retryLevel :: "State \<Rightarrow> State" where
  "retryLevel st = startGame (currentLevelIdx st) st"

definition endGame :: "bool \<Rightarrow> State \<Rightarrow> State" where
  "endGame success st =
    st\<lparr>gameState := (if success then LEVEL_COMPLETE else GAME_OVER)\<rparr>"

text \<open>
  The tail of \<open>handleDrop\<close> from "Add new block" on: \<open>now\<close> is \<open>Date.now()\<close>,
  \<open>w\<close> is \<open>isPerfect ? currentBlockWidth : newWidth\<close>, \<open>st0\<close> is the state the
  handler was called in (its closure), \<open>st\<close> the state with the updates queued so far.
\<close>

definition addBlock :: "int \<Rightarrow> bool \<Rightarrow> real \<Rightarrow> real \<Rightarrow> State \<Rightarrow> State \<Rightarrow> State" where
  "addBlock now isPerf placedX w st0 st =
    (let cfg = currentLevelConfig st0;
         newBlock = \<lparr> blk_id = now, blk_width = w, blk_x = placedX,
                      blk_y = length (blocks st0),
                      blk_color = colorPalette cfg !
                        (length (blocks st0) mod length (colorPalette cfg)),
                      isPerfect = isPerf \<rparr>;
         newBlocks = blocks st0 @ [newBlock];
         st1 = st\<lparr> blocks := newBlocks, currentBlockWidth := blk_width newBlock,
                   feedbackTimers := feedbackTimers st + 1 \<rparr>
     in if length newBlocks \<ge> targetBlocks cfg then endGame True st1
        else if length newBlocks > 3 then st1\<lparr>cameraY := cameraY st1 + BLOCK_HEIGHT\<rparr>
        else st1)"

text \<open>
  The centre and the width of the block below; the base platform when there is none.
  (\<open>overlapLimit\<close> is computed from them in the source and never read.)
\<close>

definition previousBlock :: "State \<Rightarrow> real \<times> real" where
  "previousBlock st =
    (if length (blocks st) > 0
     then (blk_x (last (blocks st)), blk_width (last (blocks st)))
     else (50, initialWidth (currentLevelConfig st) + 20))"

definition absDiff :: "State \<Rightarrow> real" where
  "absDiff st = \<bar>hookX st - fst (previousBlock st)\<bar>"

definition handleDrop :: "int \<Rightarrow> State \<Rightarrow> State" where
  "handleDrop now st =
    (if gameState st \<noteq> PLAYING \<or> isDroppingRef st then st
     else
       let currentX = hookX st in
       if absDiff st > currentBlockWidth st then endGame False st
       else if absDiff st \<le> PERFECT_TOLERANCE then
         addBlock now True (fst (previousBlock st)) (currentBlockWidth st) st
           (st\<lparr> combo := combo st + 1, score := score st + 20 + combo st * 5,
                feedback := Some perfect \<rparr>)
       else
         let st1 = st\<lparr>combo := 0\<rparr>;
             penalty = absDiff st;
             newWidth = currentBlockWidth st - penalty
         in if newWidth < 5 then endGame False st1
            else addBlock now False currentX newWidth st
                   (st1\<lparr> score := score st + 10, feedback := Some good \<rparr>))"

definition perfectCount :: "Block list \<Rightarrow> nat" where
  "perfectCount bs = length (filter isPerfect bs)"


section \<open>Events\<close>

text \<open>
  What the environment can do to the component. A button exists only on the screen of
  the state that renders it; a press anywhere is a drop; a frame carries its timestamp;
  \<open>Timeout\<close> fires the oldest queued 50 ms callback, \<open>FeedbackTimeout\<close> one of the
  800 ms callbacks that clear the banner.
\<close>

datatype Event =
    ClickPlay | ClickNext | ClickRetry | ClickMenu
  | Drop int | Frame real | Timeout | FeedbackTimeout

fun step :: "Event \<Rightarrow> State \<Rightarrow> State" where
  "step ClickPlay st =
    (if gameState st = MENU then startGame (currentLevelIdx st) st else st)"
| "step ClickNext st =
    (if gameState st = LEVEL_COMPLETE then nextLevel st else st)"
| "step ClickRetry st =
    (if gameState st = LEVEL_COMPLETE \<or> gameState st = GAME_OVER
     then retryLevel st else st)"
| "step ClickMenu st =
    (if gameState st = GAME_OVER then st\<lparr>gameState := MENU\<rparr> else st)"
| "step (Drop now) st = handleDrop now st"
| "step (Frame time) st = animate time st"
| "step Timeout st =
    (case timers st of [] \<Rightarrow> st
     | t # ts \<Rightarrow> runTimer t (st\<lparr>timers := ts\<rparr>))"
| "step FeedbackTimeout st =
    (if feedbackTimers st = 0 then st
     else st\<lparr>feedback := None, feedbackTimers := feedbackTimers st - 1\<rparr>)"

definition run :: "Event list \<Rightarrow> State \<Rightarrow> State" where
  "run evs st = foldl (\<lambda>s e. step e s) st evs"

inductive reachable :: "State \<Rightarrow> bool" where
  reachable_init: "reachable initialState"
| reachable_step: "reachable st \<Longrightarrow> reachable (step e st)"

section \<open>Observations and invariants\<close>

text \<open>
  The source has no value for the result of a drop; it is read off the transition:
  \<open>endGame(false)\<close> is a miss, otherwise the flag of the block that was placed
  tells a perfect drop from a trimmed one.
\<close>

datatype Outcome = Miss | Perfect | Good

definition dropOutcome :: "State \<Rightarrow> State \<Rightarrow> Outcome" where
  "dropOutcome st st' =
    (if gameState st' = GAME_OVER then Miss
     else if isPerfect (last (blocks st')) then Perfect else Good)"

text \<open>
  The invariant of the reachable states. A queued callback only reads a level that
  exists; outside the initial menu the stack and the pending width belong together
  (\<open>session_ok\<close>); the debounce flag \<open>isDroppingRef\<close> is never set.
\<close>

definition timer_ok :: "Timer \<Rightarrow> bool" where
  "timer_ok t = (case t of NextLevelReset k \<Rightarrow> k + 1 < length LEVELS | StartGameOf k \<Rightarrow> k < length LEVELS)"

definition session_ok :: "State \<Rightarrow> bool" where
  "session_ok st \<longleftrightarrow>
     (\<forall>b \<in> set (blocks st). 5 \<le> blk_width b \<and> currentBlockWidth st \<le> blk_width b) \<and>
     sorted_wrt (\<lambda>a b. b \<le> a) (map blk_width (blocks st)) \<and>
     (if blocks st = [] then currentBlockWidth st \<in> initialWidth ` set LEVELS
      else currentBlockWidth st = blk_width (last (blocks st)))"

definition game_inv :: "State \<Rightarrow> bool" where
  "game_inv st \<longleftrightarrow>
     \<not> isDroppingRef st \<and>
     currentLevelIdx st < length LEVELS \<and>
     0 \<le> combo st \<and> 0 \<le> score st \<and>
     (\<forall>t \<in> set (timers st). timer_ok t) \<and>
     5 \<le> hookX st \<and> hookX st \<le> 95 \<and>
     (gameState st = LEVEL_COMPLETE \<longrightarrow> 7 \<le> length (blocks st)) \<and>
     ((gameState st = MENU \<and> blocks st = [] \<and> currentBlockWidth st = 0 \<and> timers st = [])
      \<or> session_ok st)"

text \<open>
  The hook position as the specification words it, for an elapsed time, a level and a
  number of blocks placed.
\<close>

definition spec_position :: "real \<Rightarrow> LevelConfig \<Rightarrow> nat \<Rightarrow> real" where
  "spec_position elapsedTime level blocksPlaced =
    (let difficulty = 1 + 0.05 * real blocksPlaced;
         angularSpeed = baseSpeed level * difficulty * 0.002
     in 50 + 45 * sin (elapsedTime * angularSpeed))"

text \<open>
  Two plays of level 1, as event sequences: six drops with the hook at rest over the
  centre and a frame that swings it to 72.5; and a trimmed drop at 80, a perfect drop on
  top of it, and a frame that brings the hook back to 50.
  A third play completes level 1 with the hook at rest, asks for the next level, and
  before the queued reset has run retries and drops once.
\<close>

definition samplePlay :: State where
  "samplePlay = run [ClickPlay, Drop 1, Drop 2, Drop 3, Drop 4, Drop 5, Drop 6,
                     Frame (6250 * pi / 117)] initialState"

definition comboPlay :: State where
  "comboPlay = run [ClickPlay, Frame (1250 * arcsin (2 / 3) / 3), Drop 1,
                    Frame (25000 * (arcsin (2 / 3) + 2 * pi) / 63), Drop 2,
                    Frame (12500 * pi / 11)] initialState"

definition racePlay :: State where
  "racePlay = run [ClickPlay, Drop 1, Drop 2, Drop 3, Drop 4, Drop 5, Drop 6, Drop 7,
                   ClickNext, ClickRetry, Drop 8] initialState"

text \<open>
  Plays on a tower that stands off the centre: \<open>towerPlay\<close> places a trimmed block
  at 80 and a perfect one on top of it (width 18, combo 1, score 30); the three frames
  after it bring the hook to 82, to 72.5 and to 65. The plays of level 2 reach it by
  completing level 1 with the hook at rest; \<open>doubleNextPlay\<close> presses the next-level
  button twice before the first queued reset runs.
\<close>

definition towerPlay :: State where
  "towerPlay = run [ClickPlay, Frame (1250 * arcsin (2 / 3) / 3), Drop 1,
                    Frame (25000 * (arcsin (2 / 3) + 2 * pi) / 63), Drop 2] initialState"

definition perfectPlay :: State where
  "perfectPlay = step (Frame (12500 * (arcsin (32 / 45) + 4 * pi) / 33)) towerPlay"

definition trimPlay :: State where
  "trimPlay = step (Frame (12500 * (pi / 6 + 4 * pi) / 33)) towerPlay"

definition shortPlay :: State where
  "shortPlay = step (Frame (12500 * (arcsin (1 / 3) + 4 * pi) / 33)) towerPlay"

definition levelTwoStart :: State where
  "levelTwoStart = run ([ClickPlay] @ map Drop [1, 2, 3, 4, 5, 6] @ [Drop 7, ClickNext, Timeout])
                     initialState"

definition levelTwoPlay :: State where
  "levelTwoPlay = run (map Drop [11, 12, 13, 14, 15, 16]) levelTwoStart"

definition levelTwoLast :: State where
  "levelTwoLast = run (map Drop [17, 18] @ [Frame (6250 * pi / 147)]) levelTwoPlay"


section \<open>Levels\<close>

lemma length_LEVELS: "length LEVELS = 10"
  by (simp add: LEVELS_def MAX_LEVELS_def)

lemma LEVELS_nth: "i < 10 \<Longrightarrow> LEVELS ! i = mkLevel i"
  by (simp add: LEVELS_def MAX_LEVELS_def)

lemma initialWidth_mkLevel: "initialWidth (mkLevel i) = max 20 (50 - real (i + 1) * 2)"
  by (simp add: mkLevel_def Let_def)

lemma targetBlocks_mkLevel: "targetBlocks (mkLevel i) = 5 + (i + 1) * 2"
  by (simp add: mkLevel_def Let_def)

lemma baseSpeed_mkLevel: "baseSpeed (mkLevel i) = 1 + real (i + 1) * 0.2"
  by (simp add: mkLevel_def Let_def)

lemma initialWidth_ge: "i < length LEVELS \<Longrightarrow> 20 \<le> initialWidth (LEVELS ! i)"
  by (simp add: length_LEVELS LEVELS_nth initialWidth_mkLevel)

lemma targetBlocks_ge: "i < length LEVELS \<Longrightarrow> 7 \<le> targetBlocks (LEVELS ! i)"
  by (simp add: length_LEVELS LEVELS_nth targetBlocks_mkLevel)

lemma initialWidth_set_ge: "w \<in> initialWidth ` set LEVELS \<Longrightarrow> 20 \<le> w"
  by (auto simp: in_set_conv_nth initialWidth_ge)

section \<open>The invariant is kept by every event\<close>

lemma session_ok_width: "session_ok st \<Longrightarrow> 5 \<le> currentBlockWidth st"
  using initialWidth_set_ge[of "currentBlockWidth st"]
  by (cases "blocks st = []") (auto simp: session_ok_def)

lemma session_ok_startGame: "k < length LEVELS \<Longrightarrow> session_ok (startGame k st)"
  by (simp add: session_ok_def startGame_def)

lemma inv_startGame: "game_inv st \<Longrightarrow> k < length LEVELS \<Longrightarrow> game_inv (startGame k st)"
  using session_ok_startGame[of k st]
  by (simp add: game_inv_def startGame_def)

lemma session_ok_runTimer: "timer_ok t \<Longrightarrow> session_ok (runTimer t st)"
  by (cases t) (simp_all add: timer_ok_def session_ok_startGame, simp add: session_ok_def)

lemma inv_runTimer: "game_inv st \<Longrightarrow> timer_ok t \<Longrightarrow> game_inv (runTimer t st)"
  using session_ok_runTimer[of t st]
  by (cases t) (simp_all add: game_inv_def startGame_def)

lemma inv_endGame_False: "game_inv st \<Longrightarrow> gameState st = PLAYING \<Longrightarrow> game_inv (endGame False st)"
  by (auto simp: game_inv_def endGame_def session_ok_def)

lemma inv_playing: "game_inv st \<Longrightarrow> gameState st = PLAYING \<Longrightarrow> session_ok st"
  by (auto simp: game_inv_def)

lemma addBlock_eq:
  "addBlock now p px w st0 st =
     (let nb = \<lparr> blk_id = now, blk_width = w, blk_x = px, blk_y = length (blocks st0),
                  blk_color = colorPalette (currentLevelConfig st0) !
                     (length (blocks st0) mod length (colorPalette (currentLevelConfig st0))),
                  isPerfect = p \<rparr>;
          done = (targetBlocks (currentLevelConfig st0) \<le> Suc (length (blocks st0)))
      in st\<lparr> blocks := blocks st0 @ [nb], currentBlockWidth := w,
              feedbackTimers := feedbackTimers st + 1,
              gameState := (if done then LEVEL_COMPLETE else gameState st),
              cameraY := (if \<not> done \<and> 3 < Suc (length (blocks st0))
                          then cameraY st + BLOCK_HEIGHT else cameraY st) \<rparr>)"
  by (simp add: addBlock_def Let_def endGame_def)

lemma inv_addBlock:
  assumes "game_inv st0" "gameState st0 = PLAYING" "5 \<le> w" "w \<le> currentBlockWidth st0"
    and same: "blocks st = blocks st0" "currentBlockWidth st = currentBlockWidth st0"
      "gameState st = PLAYING" "isDroppingRef st = isDroppingRef st0"
      "currentLevelIdx st = currentLevelIdx st0" "timers st = timers st0" "hookX st = hookX st0"
    and pos: "0 \<le> combo st" "0 \<le> score st"
  shows "game_inv (addBlock now p px w st0 st)"
proof -
  have ok: "session_ok st0" using assms(1,2) by (rule inv_playing)
  have tb: "7 \<le> targetBlocks (currentLevelConfig st0)"
    using assms(1) by (simp add: game_inv_def currentLevelConfig_def targetBlocks_ge)
  let ?nb = "\<lparr> blk_id = now, blk_width = w, blk_x = px, blk_y = length (blocks st0),
                  blk_color = colorPalette (currentLevelConfig st0) !
                     (length (blocks st0) mod length (colorPalette (currentLevelConfig st0))),
                  isPerfect = p \<rparr>"
  have so: "session_ok (addBlock now p px w st0 st)"
    using ok assms(3,4)
    by (auto simp: addBlock_eq Let_def session_ok_def sorted_wrt_append)
  show ?thesis
    using assms(1) same pos tb so
    by (auto simp: game_inv_def addBlock_eq Let_def)
qed

lemma inv_handleDrop: "game_inv st \<Longrightarrow> game_inv (handleDrop now st)"
proof (cases "gameState st \<noteq> PLAYING \<or> isDroppingRef st")
  case True
  assume "game_inv st"
  with True show ?thesis by (simp add: handleDrop_def)
next
  case False
  assume i: "game_inv st"
  from False have pl: "gameState st = PLAYING" and nd: "\<not> isDroppingRef st" by auto
  have w5: "5 \<le> currentBlockWidth st"
    using i pl by (blast intro: session_ok_width inv_playing)
  have c0: "0 \<le> combo st" and s0: "0 \<le> score st" using i by (auto simp: game_inv_def)
  show ?thesis
  proof (cases "absDiff st > currentBlockWidth st")
    case True
    then show ?thesis using pl nd i by (simp add: handleDrop_def inv_endGame_False)
  next
    case nomiss: False
    show ?thesis
    proof (cases "absDiff st \<le> PERFECT_TOLERANCE")
      case True
      have "game_inv (addBlock now True (fst (previousBlock st)) (currentBlockWidth st) st
           (st\<lparr> combo := combo st + 1, score := score st + 20 + combo st * 5,
                feedback := Some perfect \<rparr>))"
        using i pl w5 c0 s0 by (intro inv_addBlock) simp_all
      then show ?thesis using pl nd nomiss True by (simp add: handleDrop_def)
    next
      case notperf: False
      show ?thesis
      proof (cases "currentBlockWidth st - absDiff st < 5")
        case True
        have "game_inv (st\<lparr>combo := 0\<rparr>)" using i by (auto simp: game_inv_def session_ok_def)
        then have "game_inv (endGame False (st\<lparr>combo := 0\<rparr>))"
          using pl by (intro inv_endGame_False) simp_all
        then show ?thesis using pl nd nomiss notperf True by (simp add: handleDrop_def Let_def)
      next
        case False
        have ad: "0 \<le> absDiff st" by (simp add: absDiff_def)
        have "game_inv (addBlock now False (hookX st) (currentBlockWidth st - absDiff st) st
                   (st\<lparr>combo := 0, score := score st + 10, feedback := Some good\<rparr>))"
          using i pl False ad s0 by (intro inv_addBlock) simp_all
        then show ?thesis using pl nd nomiss notperf False by (simp add: handleDrop_def Let_def)
      qed
    qed
  qed
qed

lemma hook_range: "5 \<le> 50 + sin a * 45 \<and> 50 + sin a * (45::real) \<le> 95"
proof -
  have "- 1 \<le> sin a" "sin a \<le> 1" by simp_all
  then show ?thesis by linarith
qed

lemma inv_animate: "game_inv st \<Longrightarrow> game_inv (animate time st)"
  using hook_range
  by (auto simp: animate_def updateHookPosition_def Let_def game_inv_def session_ok_def)

lemma inv_nextLevel: "game_inv st \<Longrightarrow> gameState st = LEVEL_COMPLETE \<Longrightarrow> game_inv (nextLevel st)"
  by (auto simp: nextLevel_def game_inv_def session_ok_def timer_ok_def length_LEVELS)

lemma inv_idx: "game_inv st \<Longrightarrow> currentLevelIdx st < length LEVELS"
  by (simp add: game_inv_def)

lemma inv_retryLevel: "game_inv st \<Longrightarrow> game_inv (retryLevel st)"
  by (simp add: retryLevel_def inv_startGame inv_idx)

lemma inv_timeout: "game_inv st \<Longrightarrow> game_inv (step Timeout st)"
proof (cases "timers st")
  case Nil
  assume "game_inv st"
  with Nil show ?thesis by simp
next
  case (Cons t ts)
  assume i: "game_inv st"
  have "timer_ok t" using i Cons by (simp add: game_inv_def)
  moreover have "game_inv (st\<lparr>timers := ts\<rparr>)"
    using i Cons by (auto simp: game_inv_def session_ok_def)
  ultimately show ?thesis using Cons by (simp add: inv_runTimer)
qed

lemma inv_step: "game_inv st \<Longrightarrow> game_inv (step e st)"
proof (cases e)
  case ClickPlay
  assume "game_inv st"
  then show ?thesis using ClickPlay by (simp add: inv_startGame inv_idx)
next
  case ClickNext
  assume "game_inv st"
  then show ?thesis using ClickNext by (simp add: inv_nextLevel)
next
  case ClickRetry
  assume "game_inv st"
  then show ?thesis using ClickRetry by (simp add: inv_retryLevel)
next
  case ClickMenu
  assume "game_inv st"
  then show ?thesis using ClickMenu by (auto simp: game_inv_def session_ok_def)
next
  case (Drop n)
  assume "game_inv st"
  then show ?thesis using Drop by (simp add: inv_handleDrop)
next
  case (Frame t)
  assume "game_inv st"
  then show ?thesis using Frame by (simp add: inv_animate)
next
  case Timeout
  assume "game_inv st"
  then show ?thesis using Timeout by (simp only: inv_timeout)
next
  case FeedbackTimeout
  assume "game_inv st"
  then show ?thesis using FeedbackTimeout by (auto simp: game_inv_def session_ok_def)
qed

lemma inv_initial: "game_inv initialState"
  by (simp add: game_inv_def initialState_def length_LEVELS)

lemma reachable_inv: "reachable st \<Longrightarrow> game_inv st"
  by (induction rule: reachable.induct) (simp_all add: inv_initial inv_step)

section \<open>The branches of a drop\<close>

lemmas eval_defs =
  initialState_def startGame_def handleDrop_def addBlock_def endGame_def absDiff_def
  previousBlock_def currentLevelConfig_def LEVELS_nth mkLevel_def Let_def
  PERFECT_TOLERANCE_def BLOCK_HEIGHT_def COLORS_def animate_def updateHookPosition_def
  nextLevel_def retryLevel_def length_LEVELS run_def

lemma reachable_playing:
  assumes "reachable st" "gameState st = PLAYING"
  shows "\<not> isDroppingRef st" "5 \<le> currentBlockWidth st" "0 \<le> combo st"
    "currentLevelIdx st < length LEVELS"
proof -
  have i: "game_inv st" using assms(1) by (rule reachable_inv)
  show "\<not> isDroppingRef st" "0 \<le> combo st" "currentLevelIdx st < length LEVELS"
    using i by (simp_all add: game_inv_def)
  show "5 \<le> currentBlockWidth st"
    using i assms(2) by (blast intro: session_ok_width inv_playing)
qed

lemma handleDrop_perfect:
  assumes "gameState st = PLAYING" "\<not> isDroppingRef st"
    "absDiff st \<le> currentBlockWidth st" "absDiff st \<le> PERFECT_TOLERANCE"
  shows "handleDrop now st =
    addBlock now True (fst (previousBlock st)) (currentBlockWidth st) st
      (st\<lparr> combo := combo st + 1, score := score st + 20 + combo st * 5,
           feedback := Some perfect \<rparr>)"
  using assms by (simp add: handleDrop_def)

lemma handleDrop_good:
  assumes "gameState st = PLAYING" "\<not> isDroppingRef st"
    "absDiff st \<le> currentBlockWidth st" "\<not> absDiff st \<le> PERFECT_TOLERANCE"
    "\<not> currentBlockWidth st - absDiff st < 5"
  shows "handleDrop now st =
    addBlock now False (hookX st) (currentBlockWidth st - absDiff st) st
      (st\<lparr> combo := 0, score := score st + 10, feedback := Some good \<rparr>)"
  using assms by (simp add: handleDrop_def Let_def)

lemma handleDrop_total_miss:
  assumes "gameState st = PLAYING" "\<not> isDroppingRef st"
    "absDiff st > currentBlockWidth st"
  shows "handleDrop now st = st\<lparr>gameState := GAME_OVER\<rparr>"
  using assms by (simp add: handleDrop_def endGame_def)

lemma handleDrop_trim_miss:
  assumes "gameState st = PLAYING" "\<not> isDroppingRef st"
    "absDiff st \<le> currentBlockWidth st" "\<not> absDiff st \<le> PERFECT_TOLERANCE"
    "currentBlockWidth st - absDiff st < 5"
  shows "handleDrop now st = st\<lparr>combo := 0, gameState := GAME_OVER\<rparr>"
  using assms by (simp add: handleDrop_def endGame_def Let_def)

lemma addBlock_fields:
  "blocks (addBlock now p px w st0 st) \<noteq> []"
  "butlast (blocks (addBlock now p px w st0 st)) = blocks st0"
  "length (blocks (addBlock now p px w st0 st)) = Suc (length (blocks st0))"
  "blk_width (last (blocks (addBlock now p px w st0 st))) = w"
  "blk_x (last (blocks (addBlock now p px w st0 st))) = px"
  "isPerfect (last (blocks (addBlock now p px w st0 st))) = p"
  "blk_y (last (blocks (addBlock now p px w st0 st))) = length (blocks st0)"
  "currentBlockWidth (addBlock now p px w st0 st) = w"
  "score (addBlock now p px w st0 st) = score st"
  "combo (addBlock now p px w st0 st) = combo st"
  by (simp_all add: addBlock_eq Let_def)

lemma addBlock_gameState:
  "gameState (addBlock now p px w st0 st) =
     (if targetBlocks (currentLevelConfig st0) \<le> Suc (length (blocks st0))
      then LEVEL_COMPLETE else gameState st)"
  by (simp add: addBlock_eq Let_def)

lemma inv_not_dropping: "game_inv st \<Longrightarrow> \<not> isDroppingRef st"
  by (simp add: game_inv_def)

lemma frame_playing:
  assumes "gameState st = PLAYING"
  shows "gameState (step (Frame t) st) = PLAYING"
    "blocks (step (Frame t) st) = blocks st"
    "currentBlockWidth (step (Frame t) st) = currentBlockWidth st"
    "score (step (Frame t) st) = score st"
    "combo (step (Frame t) st) = combo st"
    "currentLevelIdx (step (Frame t) st) = currentLevelIdx st"
    "hookX (step (Frame t) st) =
       50 + sin (t * (baseSpeed (LEVELS ! currentLevelIdx st) *
                      (1 + real (length (blocks st)) * 0.05) * 0.002)) * 45"
  using assms
  by (simp_all add: animate_def updateHookPosition_def Let_def currentLevelConfig_def)

lemma level1_speed: "baseSpeed (LEVELS ! 0) = 6 / 5"
  by (simp add: LEVELS_nth baseSpeed_mkLevel)

lemma level1_target: "targetBlocks (LEVELS ! 0) = 7"
  by (simp add: LEVELS_nth targetBlocks_mkLevel)

section \<open>Score and stars\<close>

lemma handleDrop_score_le: "game_inv st \<Longrightarrow> score st \<le> score (handleDrop now st)"
  by (auto simp: handleDrop_def Let_def endGame_def addBlock_fields game_inv_def)

lemma run_drops_score_le:
  "game_inv st \<Longrightarrow> score st \<le> score (run (map Drop nows) st)"
proof (induction nows arbitrary: st)
  case Nil
  then show ?case by (simp add: run_def)
next
  case (Cons n nows)
  have "score st \<le> score (handleDrop n st)"
    using Cons.prems by (rule handleDrop_score_le)
  also have "\<dots> \<le> score (run (map Drop nows) (handleDrop n st))"
    using Cons.prems by (intro Cons.IH inv_handleDrop)
  finally show ?case by (simp add: run_def)
qed




section \<open>Sample plays\<close>

lemma samplePlay_reachable: "reachable samplePlay"
  unfolding samplePlay_def run_def foldl.simps by (intro reachable.intros)

lemma samplePlay_facts:
  "gameState samplePlay = PLAYING" "length (blocks samplePlay) = 6"
  "hookX samplePlay = 145 / 2" "currentBlockWidth samplePlay = 48"
  "score samplePlay = 195" "combo samplePlay = 6"
  "blk_x (last (blocks samplePlay)) = 50" "currentLevelIdx samplePlay = 0"
  "perfectCount (blocks samplePlay) = 6" "blocks samplePlay \<noteq> []"
  "map blk_width (blocks samplePlay) = [48, 48, 48, 48, 48, 48]"
proof -
  have "6250 * pi / 117 * ((1 + 2 / 10) * (1 + 6 * 5 / 100) * 2 / 1000) = pi / 6" by simp
  then show "gameState samplePlay = PLAYING" "length (blocks samplePlay) = 6"
  "hookX samplePlay = 145 / 2" "currentBlockWidth samplePlay = 48"
  "score samplePlay = 195" "combo samplePlay = 6"
  "blk_x (last (blocks samplePlay)) = 50" "currentLevelIdx samplePlay = 0"
  "perfectCount (blocks samplePlay) = 6" "blocks samplePlay \<noteq> []"
  "map blk_width (blocks samplePlay) = [48, 48, 48, 48, 48, 48]"
    by (simp_all add: samplePlay_def eval_defs sin_30 perfectCount_def)
qed

lemma samplePlay_absDiff: "absDiff samplePlay = 45 / 2"
  using samplePlay_facts(2) by (simp add: absDiff_def previousBlock_def samplePlay_facts)

lemma samplePlay_target: "targetBlocks (currentLevelConfig samplePlay) = 7"
  by (simp add: currentLevelConfig_def samplePlay_facts LEVELS_nth targetBlocks_mkLevel)

lemma samplePlay_drop:
  "handleDrop now samplePlay =
    addBlock now False (145 / 2) (51 / 2) samplePlay
      (samplePlay\<lparr> combo := 0, score := 205, feedback := Some good \<rparr>)"
proof -
  have "handleDrop now samplePlay =
    addBlock now False (hookX samplePlay) (currentBlockWidth samplePlay - absDiff samplePlay)
      samplePlay (samplePlay\<lparr> combo := 0, score := score samplePlay + 10,
         feedback := Some good \<rparr>)"
    by (rule handleDrop_good)
       (simp_all add: samplePlay_facts samplePlay_absDiff PERFECT_TOLERANCE_def
          reachable_playing(1)[OF samplePlay_reachable])
  then show ?thesis by (simp add: samplePlay_facts samplePlay_absDiff)
qed

lemma angle1: "1250 * arcsin (2 / 3) / 3 * (6 / 5 * (1 + 0 * 0.05) * 0.002) = arcsin (2 / 3)"
  by simp

lemma angle2:
  "25000 * (arcsin (2 / 3) + 2 * pi) / 63 * (6 / 5 * (1 + real (Suc 0) * 0.05) * 0.002)
     = arcsin (2 / 3) + 2 * pi"
  by (simp add: algebra_simps)

lemma angle3: "12500 * pi / 11 * (6 / 5 * (1 + real (Suc (Suc 0)) * 0.05) * 0.002) = 3 * pi"
  by simp

lemma comboPlay_reachable: "reachable comboPlay"
  unfolding comboPlay_def run_def foldl.simps by (intro reachable.intros)

lemma comboPlay_facts:
  "gameState comboPlay = PLAYING \<and> combo comboPlay = 1 \<and> score comboPlay = 30 \<and>
   currentBlockWidth comboPlay = 18 \<and> hookX comboPlay = 50 \<and>
   length (blocks comboPlay) = 2 \<and> blk_x (last (blocks comboPlay)) = 80"
proof -
  define a where "a = step (Frame (1250 * arcsin (2 / 3) / 3)) (step ClickPlay initialState)"
  define b where "b = step (Drop 1) a"
  define c where "c = step (Frame (25000 * (arcsin (2 / 3) + 2 * pi) / 63)) b"
  define d where "d = step (Drop 2) c"
  define e where "e = step (Frame (12500 * pi / 11)) d"
  have ce: "comboPlay = e"
    by (simp only: comboPlay_def run_def foldl.simps a_def b_def c_def d_def e_def)
  have nd: "\<not> isDroppingRef a" "\<not> isDroppingRef c"
    unfolding a_def b_def c_def
    by (intro reachable_inv[THEN inv_not_dropping] reachable.intros)+
  have s: "gameState (step ClickPlay initialState) = PLAYING"
    "blocks (step ClickPlay initialState) = []"
    "currentBlockWidth (step ClickPlay initialState) = 48"
    "score (step ClickPlay initialState) = 0" "combo (step ClickPlay initialState) = 0"
    "currentLevelIdx (step ClickPlay initialState) = 0"
    by (simp_all add: initialState_def startGame_def LEVELS_nth initialWidth_mkLevel)
  have a0: "gameState a = PLAYING" "blocks a = []" "currentBlockWidth a = 48"
    "score a = 0" "combo a = 0" "currentLevelIdx a = 0"
    unfolding a_def
    by (simp_all add: frame_playing[OF s(1)] s del: step.simps)
  have "hookX a = 50 + sin (1250 * arcsin (2 / 3) / 3 * (baseSpeed (LEVELS ! currentLevelIdx (step ClickPlay initialState)) *
                      (1 + real (length (blocks (step ClickPlay initialState))) * 0.05) * 0.002)) * 45"
    unfolding a_def by (rule frame_playing(7)[OF s(1)])
  also have "\<dots> = 50 + sin (arcsin (2 / 3)) * 45"
    by (simp only: s list.size(3) of_nat_0 level1_speed angle1)
  also have "\<dots> = 80" by simp
  finally have ah: "hookX a = 80" .
  note a = a0 ah
  have ada: "absDiff a = 30"
    by (simp add: absDiff_def previousBlock_def a)
  have "b = addBlock 1 False (hookX a) (currentBlockWidth a - absDiff a) a
      (a\<lparr> combo := 0, score := score a + 10, feedback := Some good \<rparr>)"
    unfolding b_def step.simps
    by (rule handleDrop_good) (simp_all add: a ada nd PERFECT_TOLERANCE_def)
  then have b: "gameState b = PLAYING" "length (blocks b) = Suc 0"
    "currentBlockWidth b = 18" "blk_x (last (blocks b)) = 80"
    "score b = 10" "combo b = 0" "currentLevelIdx b = 0"
    by (simp_all add: addBlock_eq Let_def a ada currentLevelConfig_def level1_target)
  have c0: "gameState c = PLAYING" "length (blocks c) = Suc 0" "currentBlockWidth c = 18"
    "blk_x (last (blocks c)) = 80" "score c = 10" "combo c = 0" "currentLevelIdx c = 0"
   
    unfolding c_def
    by (simp_all add: frame_playing[OF b(1)] b del: step.simps)
  have "hookX c = 50 + sin (25000 * (arcsin (2 / 3) + 2 * pi) / 63 * (baseSpeed (LEVELS ! currentLevelIdx b) *
                      (1 + real (length (blocks b)) * 0.05) * 0.002)) * 45"
    unfolding c_def by (rule frame_playing(7)[OF b(1)])
  also have "\<dots> = 50 + sin (arcsin (2 / 3) + 2 * pi) * 45"
    by (simp only: b level1_speed angle2)
  also have "\<dots> = 80" by simp
  finally have ch: "hookX c = 80" .
  note c = c0 ch
  have adc: "absDiff c = 0"
    by (simp add: absDiff_def previousBlock_def c)
  have "d = addBlock 2 True (fst (previousBlock c)) (currentBlockWidth c) c
      (c\<lparr> combo := combo c + 1, score := score c + 20 + combo c * 5,
           feedback := Some perfect \<rparr>)"
    unfolding d_def step.simps
    by (rule handleDrop_perfect) (simp_all add: c adc nd PERFECT_TOLERANCE_def)
  then have d: "gameState d = PLAYING" "length (blocks d) = Suc (Suc 0)"
    "currentBlockWidth d = 18" "blk_x (last (blocks d)) = 80"
    "score d = 30" "combo d = 1" "currentLevelIdx d = 0"
    by (simp_all add: addBlock_eq Let_def c previousBlock_def currentLevelConfig_def
        level1_target)
  have e0: "gameState e = PLAYING" "length (blocks e) = Suc (Suc 0)" "currentBlockWidth e = 18"
    "blk_x (last (blocks e)) = 80" "score e = 30" "combo e = 1"
    unfolding e_def
    by (simp_all add: frame_playing[OF d(1)] d del: step.simps)
  have "hookX e = 50 + sin (12500 * pi / 11 * (baseSpeed (LEVELS ! currentLevelIdx d) *
                      (1 + real (length (blocks d)) * 0.05) * 0.002)) * 45"
    unfolding e_def by (rule frame_playing(7)[OF d(1)])
  also have "\<dots> = 50 + sin (3 * pi) * 45"
    by (simp only: d level1_speed angle3)
  also have "\<dots> = 50" by simp
  finally have eh: "hookX e = 50" .
  note e = e0 eh
  show ?thesis unfolding ce using e by simp
qed

lemma racePlay_reachable: "reachable racePlay"
  unfolding racePlay_def run_def foldl.simps by (intro reachable.intros)

lemma racePlay_facts:
  "gameState racePlay = PLAYING" "score racePlay = 20" "length (blocks racePlay) = 1"
  "currentLevelIdx racePlay = 1" "timers racePlay = [NextLevelReset 0]"
  by (simp_all add: racePlay_def eval_defs)

section \<open>Playing through the levels\<close>

lemma rest_drop:
  assumes i: "game_inv st" and pl: "gameState st = PLAYING" and h: "hookX st = 50"
    and c: "blocks st = [] \<or> blk_x (last (blocks st)) = 50"
  shows "hookX (handleDrop now st) = 50"
    "blk_x (last (blocks (handleDrop now st))) = 50"
    "length (blocks (handleDrop now st)) = Suc (length (blocks st))"
    "currentLevelIdx (handleDrop now st) = currentLevelIdx st"
    "timers (handleDrop now st) = timers st"
    "gameState (handleDrop now st) =
       (if targetBlocks (currentLevelConfig st) \<le> Suc (length (blocks st))
        then LEVEL_COMPLETE else PLAYING)"
proof -
  have nd: "\<not> isDroppingRef st" using i by (simp add: game_inv_def)
  have w: "5 \<le> currentBlockWidth st" using i pl by (blast intro: session_ok_width inv_playing)
  have px: "fst (previousBlock st) = 50" using c by (auto simp: previousBlock_def)
  have ad: "absDiff st = 0" by (simp add: absDiff_def px h)
  have e: "handleDrop now st =
    addBlock now True (fst (previousBlock st)) (currentBlockWidth st) st
      (st\<lparr> combo := combo st + 1, score := score st + 20 + combo st * 5,
           feedback := Some perfect \<rparr>)"
    using pl nd w by (intro handleDrop_perfect) (simp_all add: ad PERFECT_TOLERANCE_def)
  show "hookX (handleDrop now st) = 50"
    "blk_x (last (blocks (handleDrop now st))) = 50"
    "length (blocks (handleDrop now st)) = Suc (length (blocks st))"
    "currentLevelIdx (handleDrop now st) = currentLevelIdx st"
    "timers (handleDrop now st) = timers st"
    "gameState (handleDrop now st) =
       (if targetBlocks (currentLevelConfig st) \<le> Suc (length (blocks st))
        then LEVEL_COMPLETE else PLAYING)"
    using pl h px by (simp_all add: e addBlock_eq Let_def)
qed

lemma climb:
  "reachable st \<Longrightarrow> gameState st = PLAYING \<Longrightarrow> hookX st = 50 \<Longrightarrow>
   blocks st = [] \<or> blk_x (last (blocks st)) = 50 \<Longrightarrow>
   n = targetBlocks (currentLevelConfig st) - length (blocks st) \<Longrightarrow>
   \<exists>st'. reachable st' \<and> gameState st' = LEVEL_COMPLETE \<and> hookX st' = 50 \<and>
         currentLevelIdx st' = currentLevelIdx st \<and> timers st' = timers st"
proof (induction n arbitrary: st rule: less_induct)
  case (less n)
  let ?s = "step (Drop 0) st"
  have i: "game_inv st" using less.prems(1) by (rule reachable_inv)
  note d = rest_drop[OF i less.prems(2,3,4), of 0]
  have r: "reachable ?s" using less.prems(1) by (rule reachable_step)
  show ?case
  proof (cases "targetBlocks (currentLevelConfig st) \<le> Suc (length (blocks st))")
    case True
    then have "gameState ?s = LEVEL_COMPLETE" by (simp add: d)
    with r d show ?thesis by (intro exI[of _ ?s]) simp
  next
    case False
    then have pl: "gameState ?s = PLAYING" by (simp add: d)
    have cfg: "currentLevelConfig ?s = currentLevelConfig st"
      by (simp add: currentLevelConfig_def d)
    have lt: "targetBlocks (currentLevelConfig ?s) - length (blocks ?s) < n"
    proof -
      have "length (blocks ?s) = Suc (length (blocks st))" by (simp add: d)
      then show ?thesis using False less.prems(5) unfolding cfg by linarith
    qed
    have "\<exists>st'. reachable st' \<and> gameState st' = LEVEL_COMPLETE \<and> hookX st' = 50 \<and>
         currentLevelIdx st' = currentLevelIdx ?s \<and> timers st' = timers ?s"
      using lt r pl by (rule less.IH) (simp_all add: d)
    then show ?thesis by (simp add: d)
  qed
qed

lemma level_complete_reachable:
  "k < length LEVELS \<Longrightarrow>
   \<exists>st. reachable st \<and> gameState st = LEVEL_COMPLETE \<and> hookX st = 50 \<and>
        currentLevelIdx st = k \<and> timers st = []"
proof (induction k)
  case 0
  let ?s = "step ClickPlay initialState"
  have r: "reachable ?s" by (intro reachable.intros)
  have f: "gameState ?s = PLAYING" "hookX ?s = 50" "blocks ?s = []"
    "currentLevelIdx ?s = 0" "timers ?s = []"
    by (simp_all add: initialState_def startGame_def)
  from climb[OF r f(1,2) _ refl] f show ?case by simp
next
  case (Suc k)
  then obtain st where st: "reachable st" "gameState st = LEVEL_COMPLETE" "hookX st = 50"
    "currentLevelIdx st = k" "timers st = []"
    by auto
  let ?s = "step Timeout (step ClickNext st)"
  have r: "reachable ?s" using st(1) by (intro reachable_step)
  have f: "gameState ?s = PLAYING" "hookX ?s = 50" "blocks ?s = []"
    "currentLevelIdx ?s = Suc k" "timers ?s = []"
  proof -
    have "k < length LEVELS - 1" using Suc.prems by simp
    then show "gameState ?s = PLAYING" "hookX ?s = 50" "blocks ?s = []"
      "currentLevelIdx ?s = Suc k" "timers ?s = []"
      using st by (simp_all add: nextLevel_def)
  qed
  from climb[OF r f(1,2) _ refl] f show ?case by simp
qed

section \<open>The score within a session\<close>

text \<open>
  A drop adds 10 when it is good, 20 plus 5 times the combo before the drop when it is
  perfect, and nothing when it is a miss; no sequence of drops lowers the score; every
  other event leaves the score as it is, unless it is the queued reset of
  \<open>nextLevel\<close>.
\<close>

theorem score_within_session:
  "reachable st \<and> gameState st = PLAYING \<longrightarrow>
     (let st' = handleDrop now st in
        score st' - score st =
          (case dropOutcome st st' of
             Miss \<Rightarrow> 0 | Perfect \<Rightarrow> 20 + 5 * combo st | Good \<Rightarrow> 10) \<and>
        0 \<le> score st' - score st) \<and>
     ((\<forall>n. e \<noteq> Drop n) \<longrightarrow>
        score (step e st) = score st \<or>
        (e = Timeout \<and> timers st \<noteq> [] \<and> blocks (step e st) = [] \<and>
         score (step e st) = 0 \<and> combo (step e st) = 0)) \<and>
     score st \<le> score (run (map Drop nows) st)"
proof
  assume a: "reachable st \<and> gameState st = PLAYING"
  then have pl: "gameState st = PLAYING" and nd: "\<not> isDroppingRef st"
    and c0: "0 \<le> combo st"
    using reachable_playing by blast+
  have i: "game_inv st" using a by (simp add: reachable_inv)
  consider (total) "absDiff st > currentBlockWidth st"
    | (perf) "absDiff st \<le> currentBlockWidth st" "absDiff st \<le> PERFECT_TOLERANCE"
    | (trim) "absDiff st \<le> currentBlockWidth st" "\<not> absDiff st \<le> PERFECT_TOLERANCE"
        "currentBlockWidth st - absDiff st < 5"
    | (good) "absDiff st \<le> currentBlockWidth st" "\<not> absDiff st \<le> PERFECT_TOLERANCE"
        "\<not> currentBlockWidth st - absDiff st < 5"
    by linarith
  then have drop: "let st' = handleDrop now st in
        score st' - score st =
          (case dropOutcome st st' of
             Miss \<Rightarrow> 0 | Perfect \<Rightarrow> 20 + 5 * combo st | Good \<Rightarrow> 10) \<and>
        0 \<le> score st' - score st"
  proof cases
    case total
    then show ?thesis
      by (simp add: handleDrop_total_miss[OF pl nd] dropOutcome_def)
  next
    case perf
    then show ?thesis using pl c0
      by (simp add: handleDrop_perfect[OF pl nd] dropOutcome_def addBlock_fields
          addBlock_gameState)
  next
    case trim
    then show ?thesis
      by (simp add: handleDrop_trim_miss[OF pl nd] dropOutcome_def)
  next
    case good
    then show ?thesis using pl
      by (simp add: handleDrop_good[OF pl nd] dropOutcome_def addBlock_fields
          addBlock_gameState)
  qed
  have other: "(\<forall>n. e \<noteq> Drop n) \<longrightarrow>
        score (step e st) = score st \<or>
        (e = Timeout \<and> timers st \<noteq> [] \<and> blocks (step e st) = [] \<and>
         score (step e st) = 0 \<and> combo (step e st) = 0)"
  proof (cases e)
    case Timeout
    show ?thesis
    proof (cases "timers st")
      case Nil
      then show ?thesis using Timeout by simp
    next
      case (Cons t ts)
      then show ?thesis using Timeout by (cases t) (simp_all add: startGame_def)
    qed
  qed (simp_all add: pl animate_def updateHookPosition_def Let_def)
  have seq: "score st \<le> score (run (map Drop nows) st)"
    using i by (rule run_drops_score_le)
  show "(let st' = handleDrop now st in
        score st' - score st =
          (case dropOutcome st st' of
             Miss \<Rightarrow> 0 | Perfect \<Rightarrow> 20 + 5 * combo st | Good \<Rightarrow> 10) \<and>
        0 \<le> score st' - score st) \<and>
     ((\<forall>n. e \<noteq> Drop n) \<longrightarrow>
        score (step e st) = score st \<or>
        (e = Timeout \<and> timers st \<noteq> [] \<and> blocks (step e st) = [] \<and>
         score (step e st) = 0 \<and> combo (step e st) = 0)) \<and>
     score st \<le> score (run (map Drop nows) st)"
    using drop other seq by blast
qed

theorem score_within_session_witness:
  "reachable samplePlay \<and> gameState samplePlay = PLAYING \<and>
   dropOutcome samplePlay (handleDrop 7 samplePlay) = Good \<and>
   score (handleDrop 7 samplePlay) - score samplePlay = 10 \<and>
   score (step (Frame 1) samplePlay) = score samplePlay \<and>
   score samplePlay \<le> score (run (map Drop [7, 8]) samplePlay)"
proof -
  have o: "dropOutcome samplePlay (handleDrop 7 samplePlay) = Good"
    by (simp add: samplePlay_drop dropOutcome_def addBlock_fields addBlock_gameState
        samplePlay_target samplePlay_facts)
  from score_within_session[of samplePlay 7 "Frame 1" "[7, 8]"] samplePlay_reachable o
  show ?thesis
    by (simp add: Let_def samplePlay_facts)
qed

section \<open>The offset of a drop, written out\<close>

lemma previousBlock_centre:
  "fst (previousBlock st) = (if blocks st = [] then 50 else blk_x (last (blocks st)))"
  by (simp add: previousBlock_def)

lemma absDiff_centre:
  "absDiff st = \<bar>hookX st - (if blocks st = [] then 50 else blk_x (last (blocks st)))\<bar>"
  by (simp add: absDiff_def previousBlock_centre)

lemma fresh_session_zero:
  "reachable st \<Longrightarrow> blocks st = [] \<longrightarrow> score st = 0 \<and> combo st = 0"
proof (induction rule: reachable.induct)
  case reachable_init
  show ?case by (simp add: initialState_def)
next
  case (reachable_step st e)
  show ?case
  proof (cases e)
    case (Drop n)
    have "blocks (handleDrop n st) = [] \<longrightarrow>
        score (handleDrop n st) = 0 \<and> combo (handleDrop n st) = 0"
      using reachable_step.IH
      by (auto simp: handleDrop_def Let_def endGame_def addBlock_fields)
    then show ?thesis using Drop by simp
  next
    case Timeout
    show ?thesis
    proof (cases "timers st")
      case Nil
      then show ?thesis using Timeout reachable_step.IH by simp
    next
      case (Cons t ts)
      then show ?thesis using Timeout by (cases t) (simp_all add: startGame_def)
    qed
  next
    case (Frame t)
    then show ?thesis using reachable_step.IH
      by (simp add: animate_def updateHookPosition_def Let_def)
  qed (use reachable_step.IH in \<open>simp_all add: startGame_def retryLevel_def nextLevel_def\<close>)
qed

lemma drop_miss_cases:
  "reachable st \<and> gameState st = PLAYING \<longrightarrow>
     (let st' = handleDrop now st in
        (dropOutcome st st' = Miss \<longleftrightarrow>
           (absDiff st > currentBlockWidth st \<or>
            (absDiff st > PERFECT_TOLERANCE \<and> currentBlockWidth st - absDiff st < 5))) \<and>
        (dropOutcome st st' = Miss \<longrightarrow>
           blocks st' = blocks st \<and> gameState st' = GAME_OVER))"
proof
  assume a: "reachable st \<and> gameState st = PLAYING"
  then have pl: "gameState st = PLAYING" and nd: "\<not> isDroppingRef st"
    using reachable_playing(1) by blast+
  consider (total) "absDiff st > currentBlockWidth st"
    | (perf) "absDiff st \<le> currentBlockWidth st" "absDiff st \<le> PERFECT_TOLERANCE"
    | (trim) "absDiff st \<le> currentBlockWidth st" "\<not> absDiff st \<le> PERFECT_TOLERANCE"
        "currentBlockWidth st - absDiff st < 5"
    | (good) "absDiff st \<le> currentBlockWidth st" "\<not> absDiff st \<le> PERFECT_TOLERANCE"
        "\<not> currentBlockWidth st - absDiff st < 5"
    by linarith
  then show "let st' = handleDrop now st in
        (dropOutcome st st' = Miss \<longleftrightarrow>
           (absDiff st > currentBlockWidth st \<or>
            (absDiff st > PERFECT_TOLERANCE \<and> currentBlockWidth st - absDiff st < 5))) \<and>
        (dropOutcome st st' = Miss \<longrightarrow>
           blocks st' = blocks st \<and> gameState st' = GAME_OVER)"
  proof cases
    case total
    then show ?thesis
      by (simp add: handleDrop_total_miss[OF pl nd] dropOutcome_def)
  next
    case perf
    then show ?thesis using pl
      by (simp add: handleDrop_perfect[OF pl nd] dropOutcome_def addBlock_gameState)
  next
    case trim
    then show ?thesis
      by (simp add: handleDrop_trim_miss[OF pl nd] dropOutcome_def)
  next
    case good
    then show ?thesis using pl
      by (simp add: handleDrop_good[OF pl nd] dropOutcome_def addBlock_gameState)
  qed
qed

lemma drop_target_cases:
  "reachable st \<and> gameState st = PLAYING \<and> dropOutcome st (handleDrop now st) \<noteq> Miss \<longrightarrow>
     (let st' = handleDrop now st in
        length (blocks st') = Suc (length (blocks st)) \<and>
        (targetBlocks (currentLevelConfig st) \<le> length (blocks st')
           \<longrightarrow> gameState st' = LEVEL_COMPLETE) \<and>
        (length (blocks st') < targetBlocks (currentLevelConfig st)
           \<longrightarrow> gameState st' = PLAYING))"
proof
  assume a: "reachable st \<and> gameState st = PLAYING \<and>
    dropOutcome st (handleDrop now st) \<noteq> Miss"
  then have pl: "gameState st = PLAYING" and nd: "\<not> isDroppingRef st"
    using reachable_playing(1) by blast+
  have nm: "dropOutcome st (handleDrop now st) \<noteq> Miss" using a by simp
  consider (total) "absDiff st > currentBlockWidth st"
    | (perf) "absDiff st \<le> currentBlockWidth st" "absDiff st \<le> PERFECT_TOLERANCE"
    | (trim) "absDiff st \<le> currentBlockWidth st" "\<not> absDiff st \<le> PERFECT_TOLERANCE"
        "currentBlockWidth st - absDiff st < 5"
    | (good) "absDiff st \<le> currentBlockWidth st" "\<not> absDiff st \<le> PERFECT_TOLERANCE"
        "\<not> currentBlockWidth st - absDiff st < 5"
    by linarith
  then show "let st' = handleDrop now st in
        length (blocks st') = Suc (length (blocks st)) \<and>
        (targetBlocks (currentLevelConfig st) \<le> length (blocks st')
           \<longrightarrow> gameState st' = LEVEL_COMPLETE) \<and>
        (length (blocks st') < targetBlocks (currentLevelConfig st)
           \<longrightarrow> gameState st' = PLAYING)"
  proof cases
    case total
    then show ?thesis using nm
      by (simp add: handleDrop_total_miss[OF pl nd] dropOutcome_def)
  next
    case perf
    then show ?thesis using pl
      by (simp add: handleDrop_perfect[OF pl nd] addBlock_fields addBlock_gameState)
  next
    case trim
    then show ?thesis using nm
      by (simp add: handleDrop_trim_miss[OF pl nd] dropOutcome_def)
  next
    case good
    then show ?thesis using pl
      by (simp add: handleDrop_good[OF pl nd] addBlock_fields addBlock_gameState)
  qed
qed

section \<open>Plays on an off-centre tower and on level 2\<close>

lemma towerPlay_reachable: "reachable towerPlay"
  unfolding towerPlay_def run_def foldl.simps by (intro reachable.intros)

lemma towerPlay_facts:
  "gameState towerPlay = PLAYING" "length (blocks towerPlay) = Suc (Suc 0)"
  "currentBlockWidth towerPlay = 18" "blk_x (last (blocks towerPlay)) = 80"
  "score towerPlay = 30" "combo towerPlay = 1" "currentLevelIdx towerPlay = 0"
proof -
  define a where "a = step (Frame (1250 * arcsin (2 / 3) / 3)) (step ClickPlay initialState)"
  define b where "b = step (Drop 1) a"
  define c where "c = step (Frame (25000 * (arcsin (2 / 3) + 2 * pi) / 63)) b"
  define d where "d = step (Drop 2) c"
  have ce: "towerPlay = d"
    by (simp only: towerPlay_def run_def foldl.simps a_def b_def c_def d_def)
  have nd: "\<not> isDroppingRef a" "\<not> isDroppingRef c"
    unfolding a_def b_def c_def
    by (intro reachable_inv[THEN inv_not_dropping] reachable.intros)+
  have s: "gameState (step ClickPlay initialState) = PLAYING"
    "blocks (step ClickPlay initialState) = []"
    "currentBlockWidth (step ClickPlay initialState) = 48"
    "score (step ClickPlay initialState) = 0" "combo (step ClickPlay initialState) = 0"
    "currentLevelIdx (step ClickPlay initialState) = 0"
    by (simp_all add: initialState_def startGame_def LEVELS_nth initialWidth_mkLevel)
  have a0: "gameState a = PLAYING" "blocks a = []" "currentBlockWidth a = 48"
    "score a = 0" "combo a = 0" "currentLevelIdx a = 0"
    unfolding a_def
    by (simp_all add: frame_playing[OF s(1)] s del: step.simps)
  have "hookX a = 50 + sin (1250 * arcsin (2 / 3) / 3 *
      (baseSpeed (LEVELS ! currentLevelIdx (step ClickPlay initialState)) *
       (1 + real (length (blocks (step ClickPlay initialState))) * 0.05) * 0.002)) * 45"
    unfolding a_def by (rule frame_playing(7)[OF s(1)])
  also have "\<dots> = 50 + sin (arcsin (2 / 3)) * 45"
    by (simp only: s list.size(3) of_nat_0 level1_speed angle1)
  also have "\<dots> = 80" by simp
  finally have ah: "hookX a = 80" .
  note a = a0 ah
  have ada: "absDiff a = 30"
    by (simp add: absDiff_def previousBlock_def a)
  have "b = addBlock 1 False (hookX a) (currentBlockWidth a - absDiff a) a
      (a\<lparr> combo := 0, score := score a + 10, feedback := Some good \<rparr>)"
    unfolding b_def step.simps
    by (rule handleDrop_good) (simp_all add: a ada nd PERFECT_TOLERANCE_def)
  then have b: "gameState b = PLAYING" "length (blocks b) = Suc 0"
    "currentBlockWidth b = 18" "blk_x (last (blocks b)) = 80"
    "score b = 10" "combo b = 0" "currentLevelIdx b = 0"
    by (simp_all add: addBlock_eq Let_def a ada currentLevelConfig_def level1_target)
  have c0: "gameState c = PLAYING" "length (blocks c) = Suc 0" "currentBlockWidth c = 18"
    "blk_x (last (blocks c)) = 80" "score c = 10" "combo c = 0" "currentLevelIdx c = 0"
    unfolding c_def
    by (simp_all add: frame_playing[OF b(1)] b del: step.simps)
  have "hookX c = 50 + sin (25000 * (arcsin (2 / 3) + 2 * pi) / 63 *
      (baseSpeed (LEVELS ! currentLevelIdx b) *
       (1 + real (length (blocks b)) * 0.05) * 0.002)) * 45"
    unfolding c_def by (rule frame_playing(7)[OF b(1)])
  also have "\<dots> = 50 + sin (arcsin (2 / 3) + 2 * pi) * 45"
    by (simp only: b level1_speed angle2)
  also have "\<dots> = 80" by simp
  finally have ch: "hookX c = 80" .
  note c = c0 ch
  have adc: "absDiff c = 0"
    by (simp add: absDiff_def previousBlock_def c)
  have "d = addBlock 2 True (fst (previousBlock c)) (currentBlockWidth c) c
      (c\<lparr> combo := combo c + 1, score := score c + 20 + combo c * 5,
           feedback := Some perfect \<rparr>)"
    unfolding d_def step.simps
    by (rule handleDrop_perfect) (simp_all add: c adc nd PERFECT_TOLERANCE_def)
  then have d: "gameState d = PLAYING" "length (blocks d) = Suc (Suc 0)"
    "currentBlockWidth d = 18" "blk_x (last (blocks d)) = 80"
    "score d = 30" "combo d = 1" "currentLevelIdx d = 0"
    by (simp_all add: addBlock_eq Let_def c previousBlock_def currentLevelConfig_def
        level1_target)
  show "gameState towerPlay = PLAYING" "length (blocks towerPlay) = Suc (Suc 0)"
    "currentBlockWidth towerPlay = 18" "blk_x (last (blocks towerPlay)) = 80"
    "score towerPlay = 30" "combo towerPlay = 1" "currentLevelIdx towerPlay = 0"
    unfolding ce using d by simp_all
qed

lemma sin_plus_4pi: "sin (x + 4 * pi) = sin (x::real)"
proof -
  have "x + 4 * pi = x + 2 * pi + 2 * pi" by simp
  then have "sin (x + 4 * pi) = sin (x + 2 * pi + 2 * pi)" by (rule arg_cong)
  also have "\<dots> = sin (x + 2 * pi)" by (rule sin_periodic)
  also have "\<dots> = sin x" by (rule sin_periodic)
  finally show ?thesis .
qed

lemma tower_angle: "12500 * \<theta> / 33 * (6 / 5 * (1 + real (Suc (Suc 0)) * 0.05) * 0.002) = \<theta>"
  by simp

lemma tower_frame:
  "gameState (step (Frame (12500 * (\<theta> + 4 * pi) / 33)) towerPlay) = PLAYING"
  "blocks (step (Frame (12500 * (\<theta> + 4 * pi) / 33)) towerPlay) = blocks towerPlay"
  "currentBlockWidth (step (Frame (12500 * (\<theta> + 4 * pi) / 33)) towerPlay) = 18"
  "score (step (Frame (12500 * (\<theta> + 4 * pi) / 33)) towerPlay) = 30"
  "combo (step (Frame (12500 * (\<theta> + 4 * pi) / 33)) towerPlay) = 1"
  "currentLevelIdx (step (Frame (12500 * (\<theta> + 4 * pi) / 33)) towerPlay) = 0"
  "hookX (step (Frame (12500 * (\<theta> + 4 * pi) / 33)) towerPlay) = 50 + sin \<theta> * 45"
proof -
  note f = towerPlay_facts
  show "gameState (step (Frame (12500 * (\<theta> + 4 * pi) / 33)) towerPlay) = PLAYING"
    "blocks (step (Frame (12500 * (\<theta> + 4 * pi) / 33)) towerPlay) = blocks towerPlay"
    "currentBlockWidth (step (Frame (12500 * (\<theta> + 4 * pi) / 33)) towerPlay) = 18"
    "score (step (Frame (12500 * (\<theta> + 4 * pi) / 33)) towerPlay) = 30"
    "combo (step (Frame (12500 * (\<theta> + 4 * pi) / 33)) towerPlay) = 1"
    "currentLevelIdx (step (Frame (12500 * (\<theta> + 4 * pi) / 33)) towerPlay) = 0"
    by (simp_all add: frame_playing[OF f(1)] f del: step.simps)
  have "hookX (step (Frame (12500 * (\<theta> + 4 * pi) / 33)) towerPlay) =
      50 + sin (12500 * (\<theta> + 4 * pi) / 33 *
        (baseSpeed (LEVELS ! currentLevelIdx towerPlay) *
         (1 + real (length (blocks towerPlay)) * 0.05) * 0.002)) * 45"
    by (rule frame_playing(7)[OF f(1)])
  also have "\<dots> = 50 + sin (\<theta> + 4 * pi) * 45"
    by (simp only: f level1_speed tower_angle)
  finally show "hookX (step (Frame (12500 * (\<theta> + 4 * pi) / 33)) towerPlay) = 50 + sin \<theta> * 45"
    by (simp only: sin_plus_4pi)
qed

lemma towerPlay_nonempty: "blocks towerPlay \<noteq> []"
  using towerPlay_facts(2) by auto

lemma perfectPlay_facts:
  "reachable perfectPlay" "gameState perfectPlay = PLAYING" "blocks perfectPlay \<noteq> []"
  "blk_x (last (blocks perfectPlay)) = 80" "hookX perfectPlay = 82"
  "currentBlockWidth perfectPlay = 18" "score perfectPlay = 30" "combo perfectPlay = 1"
  "currentLevelIdx perfectPlay = 0"
proof -
  note tf = tower_frame[of "arcsin (32 / 45)"]
  show "reachable perfectPlay"
    unfolding perfectPlay_def by (intro reachable_step towerPlay_reachable)
  show "gameState perfectPlay = PLAYING" unfolding perfectPlay_def by (rule tf(1))
  show "blocks perfectPlay \<noteq> []"
    unfolding perfectPlay_def tf(2) by (rule towerPlay_nonempty)
  show "blk_x (last (blocks perfectPlay)) = 80"
    unfolding perfectPlay_def tf(2) by (rule towerPlay_facts(4))
  show "currentBlockWidth perfectPlay = 18" unfolding perfectPlay_def by (rule tf(3))
  show "score perfectPlay = 30" unfolding perfectPlay_def by (rule tf(4))
  show "combo perfectPlay = 1" unfolding perfectPlay_def by (rule tf(5))
  show "currentLevelIdx perfectPlay = 0" unfolding perfectPlay_def by (rule tf(6))
  have "- 1 \<le> (32 / 45 :: real)" "(32 / 45 :: real) \<le> 1" by simp_all
  then have "sin (arcsin (32 / 45 :: real)) = 32 / 45" by (rule sin_arcsin)
  then show "hookX perfectPlay = 82"
    unfolding perfectPlay_def tf(7) by simp
qed

lemma trimPlay_facts:
  "reachable trimPlay" "gameState trimPlay = PLAYING" "blocks trimPlay \<noteq> []"
  "blk_x (last (blocks trimPlay)) = 80" "hookX trimPlay = 145 / 2"
  "currentBlockWidth trimPlay = 18" "score trimPlay = 30" "combo trimPlay = 1"
  "currentLevelIdx trimPlay = 0"
proof -
  note tf = tower_frame[of "pi / 6"]
  show "reachable trimPlay"
    unfolding trimPlay_def by (intro reachable_step towerPlay_reachable)
  show "gameState trimPlay = PLAYING" unfolding trimPlay_def by (rule tf(1))
  show "blocks trimPlay \<noteq> []"
    unfolding trimPlay_def tf(2) by (rule towerPlay_nonempty)
  show "blk_x (last (blocks trimPlay)) = 80"
    unfolding trimPlay_def tf(2) by (rule towerPlay_facts(4))
  show "currentBlockWidth trimPlay = 18" unfolding trimPlay_def by (rule tf(3))
  show "score trimPlay = 30" unfolding trimPlay_def by (rule tf(4))
  show "combo trimPlay = 1" unfolding trimPlay_def by (rule tf(5))
  show "currentLevelIdx trimPlay = 0" unfolding trimPlay_def by (rule tf(6))
  have "sin (pi / 6 :: real) = 1 / 2" by (rule sin_30)
  then show "hookX trimPlay = 145 / 2"
    unfolding trimPlay_def tf(7) by simp
qed

lemma shortPlay_facts:
  "reachable shortPlay" "gameState shortPlay = PLAYING" "blocks shortPlay \<noteq> []"
  "blk_x (last (blocks shortPlay)) = 80" "hookX shortPlay = 65"
  "currentBlockWidth shortPlay = 18" "score shortPlay = 30" "combo shortPlay = 1"
  "currentLevelIdx shortPlay = 0"
proof -
  note tf = tower_frame[of "arcsin (1 / 3)"]
  show "reachable shortPlay"
    unfolding shortPlay_def by (intro reachable_step towerPlay_reachable)
  show "gameState shortPlay = PLAYING" unfolding shortPlay_def by (rule tf(1))
  show "blocks shortPlay \<noteq> []"
    unfolding shortPlay_def tf(2) by (rule towerPlay_nonempty)
  show "blk_x (last (blocks shortPlay)) = 80"
    unfolding shortPlay_def tf(2) by (rule towerPlay_facts(4))
  show "currentBlockWidth shortPlay = 18" unfolding shortPlay_def by (rule tf(3))
  show "score shortPlay = 30" unfolding shortPlay_def by (rule tf(4))
  show "combo shortPlay = 1" unfolding shortPlay_def by (rule tf(5))
  show "currentLevelIdx shortPlay = 0" unfolding shortPlay_def by (rule tf(6))
  have "- 1 \<le> (1 / 3 :: real)" "(1 / 3 :: real) \<le> 1" by simp_all
  then have "sin (arcsin (1 / 3 :: real)) = 1 / 3" by (rule sin_arcsin)
  then show "hookX shortPlay = 65"
    unfolding shortPlay_def tf(7) by simp
qed

lemma run_append: "run (xs @ ys) st = run ys (run xs st)"
  by (simp add: run_def)

lemma run_Cons: "run (e # es) st = run es (step e st)"
  by (simp add: run_def)

lemma run_Nil: "run [] st = st"
  by (simp add: run_def)

lemma rest_drop_width:
  assumes i: "game_inv st" and pl: "gameState st = PLAYING" and h: "hookX st = 50"
    and c: "blocks st = [] \<or> blk_x (last (blocks st)) = 50"
  shows "currentBlockWidth (handleDrop now st) = currentBlockWidth st"
proof -
  have nd: "\<not> isDroppingRef st" using i by (simp add: game_inv_def)
  have w: "5 \<le> currentBlockWidth st" using i pl by (blast intro: session_ok_width inv_playing)
  have px: "fst (previousBlock st) = 50" using c by (auto simp: previousBlock_def)
  have ad: "absDiff st = 0" by (simp add: absDiff_def px h)
  have e: "handleDrop now st =
    addBlock now True (fst (previousBlock st)) (currentBlockWidth st) st
      (st\<lparr> combo := combo st + 1, score := score st + 20 + combo st * 5,
           feedback := Some perfect \<rparr>)"
    using pl nd w by (intro handleDrop_perfect) (simp_all add: ad PERFECT_TOLERANCE_def)
  show ?thesis by (simp add: e addBlock_fields)
qed

lemma rest_drops:
  "reachable st \<Longrightarrow> gameState st = PLAYING \<Longrightarrow> hookX st = 50 \<Longrightarrow>
   blocks st = [] \<or> blk_x (last (blocks st)) = 50 \<Longrightarrow>
   length (blocks st) + length ns < targetBlocks (currentLevelConfig st) \<Longrightarrow>
   reachable (run (map Drop ns) st) \<and> gameState (run (map Drop ns) st) = PLAYING \<and>
   hookX (run (map Drop ns) st) = 50 \<and>
   (blocks (run (map Drop ns) st) = [] \<or> blk_x (last (blocks (run (map Drop ns) st))) = 50) \<and>
   length (blocks (run (map Drop ns) st)) = length (blocks st) + length ns \<and>
   currentLevelIdx (run (map Drop ns) st) = currentLevelIdx st \<and>
   timers (run (map Drop ns) st) = timers st \<and>
   currentBlockWidth (run (map Drop ns) st) = currentBlockWidth st"
proof (induction ns arbitrary: st)
  case Nil
  then show ?case by (simp add: run_Nil)
next
  case (Cons n ns)
  let ?s = "handleDrop n st"
  have i: "game_inv st" using Cons.prems(1) by (rule reachable_inv)
  note d = rest_drop[OF i Cons.prems(2,3,4), of n]
    and w = rest_drop_width[OF i Cons.prems(2,3,4), of n]
  have r: "reachable ?s" using reachable_step[OF Cons.prems(1), of "Drop n"] by simp
  have pl: "gameState ?s = PLAYING" using Cons.prems(5) by (simp add: d)
  have cfg: "currentLevelConfig ?s = currentLevelConfig st"
    by (simp add: currentLevelConfig_def d)
  have lt: "length (blocks ?s) + length ns < targetBlocks (currentLevelConfig ?s)"
    using Cons.prems(5) by (simp add: cfg d)
  have h: "hookX ?s = 50" and c: "blocks ?s = [] \<or> blk_x (last (blocks ?s)) = 50"
    by (simp_all add: d)
  from Cons.IH[OF r pl h c lt] show ?case
    by (simp add: run_Cons d w)
qed

lemma level2_config:
  "targetBlocks (LEVELS ! Suc 0) = 9" "initialWidth (LEVELS ! Suc 0) = 46"
  "baseSpeed (LEVELS ! Suc 0) = 7 / 5" "initialWidth (LEVELS ! 0) = 48"
  by (simp_all add: LEVELS_nth targetBlocks_mkLevel initialWidth_mkLevel baseSpeed_mkLevel)

lemma levelTwoStart_facts:
  "reachable levelTwoStart" "gameState levelTwoStart = PLAYING" "hookX levelTwoStart = 50"
  "blocks levelTwoStart = []" "currentLevelIdx levelTwoStart = Suc 0"
  "timers levelTwoStart = []" "currentBlockWidth levelTwoStart = 46"
proof -
  define s1 where "s1 = step ClickPlay initialState"
  define s2 where "s2 = run (map Drop [1, 2, 3, 4, 5, 6]) s1"
  define s3 where "s3 = step (Drop 7) s2"
  have e: "levelTwoStart = step Timeout (step ClickNext s3)"
    by (simp only: levelTwoStart_def run_append run_Cons run_Nil s1_def s2_def s3_def)
  have r1: "reachable s1" unfolding s1_def by (intro reachable.intros)
  have f1: "gameState s1 = PLAYING" "hookX s1 = 50" "blocks s1 = []"
    "currentLevelIdx s1 = 0" "timers s1 = []"
    by (simp_all add: s1_def initialState_def startGame_def)
  have t1: "targetBlocks (currentLevelConfig s1) = 7"
    by (simp add: currentLevelConfig_def f1 level1_target)
  have "length (blocks s1) + length [1, 2, 3, 4, 5, 6 :: int] < targetBlocks (currentLevelConfig s1)"
    by (simp add: f1 t1)
  from rest_drops[OF r1 f1(1,2) _ this] f1
  have f2: "reachable s2" "gameState s2 = PLAYING" "hookX s2 = 50"
    "blocks s2 = [] \<or> blk_x (last (blocks s2)) = 50" "length (blocks s2) = 6"
    "currentLevelIdx s2 = 0" "timers s2 = []"
    by (simp_all add: s2_def)
  have i2: "game_inv s2" using f2(1) by (rule reachable_inv)
  note d = rest_drop[OF i2 f2(2,3,4), of 7]
  have r3: "reachable s3" unfolding s3_def using f2(1) by (rule reachable_step)
  have f3: "gameState s3 = LEVEL_COMPLETE" "hookX s3 = 50" "currentLevelIdx s3 = 0"
    "timers s3 = []"
    by (simp_all add: s3_def d f2 currentLevelConfig_def level1_target)
  show "reachable levelTwoStart" unfolding e using r3 by (intro reachable_step)
  show "gameState levelTwoStart = PLAYING" "hookX levelTwoStart = 50"
    "blocks levelTwoStart = []" "currentLevelIdx levelTwoStart = Suc 0"
    "timers levelTwoStart = []" "currentBlockWidth levelTwoStart = 46"
    unfolding e using f3
    by (simp_all add: nextLevel_def length_LEVELS level2_config)
qed

lemma levelTwoPlay_facts:
  "reachable levelTwoPlay" "gameState levelTwoPlay = PLAYING" "hookX levelTwoPlay = 50"
  "blocks levelTwoPlay = [] \<or> blk_x (last (blocks levelTwoPlay)) = 50"
  "length (blocks levelTwoPlay) = 6" "currentLevelIdx levelTwoPlay = Suc 0"
  "timers levelTwoPlay = []" "currentBlockWidth levelTwoPlay = 46"
proof -
  note s = levelTwoStart_facts
  have "length (blocks levelTwoStart) + length [11, 12, 13, 14, 15, 16 :: int]
      < targetBlocks (currentLevelConfig levelTwoStart)"
    by (simp add: s currentLevelConfig_def level2_config)
  from rest_drops[OF s(1,2,3) _ this] s
  show "reachable levelTwoPlay" "gameState levelTwoPlay = PLAYING" "hookX levelTwoPlay = 50"
    "blocks levelTwoPlay = [] \<or> blk_x (last (blocks levelTwoPlay)) = 50"
    "length (blocks levelTwoPlay) = 6" "currentLevelIdx levelTwoPlay = Suc 0"
    "timers levelTwoPlay = []" "currentBlockWidth levelTwoPlay = 46"
    by (simp_all add: levelTwoPlay_def)
qed

lemma level2_angle: "6250 * pi / 147 * (7 / 5 * (1 + real 8 * 0.05) * 0.002) = pi / 6"
  by simp

lemma levelTwoLast_facts:
  "reachable levelTwoLast" "gameState levelTwoLast = PLAYING" "hookX levelTwoLast = 145 / 2"
  "blk_x (last (blocks levelTwoLast)) = 50" "blocks levelTwoLast \<noteq> []"
  "length (blocks levelTwoLast) = 8" "currentLevelIdx levelTwoLast = Suc 0"
  "currentBlockWidth levelTwoLast = 46"
proof -
  note p = levelTwoPlay_facts
  define s where "s = run (map Drop [17, 18]) levelTwoPlay"
  have e: "levelTwoLast = step (Frame (6250 * pi / 147)) s"
    by (simp only: levelTwoLast_def run_append run_Cons run_Nil s_def)
  have "length (blocks levelTwoPlay) + length [17, 18 :: int]
      < targetBlocks (currentLevelConfig levelTwoPlay)"
    by (simp add: p currentLevelConfig_def level2_config)
  from rest_drops[OF p(1,2,3,4) this] p
  have f: "reachable s" "gameState s = PLAYING"
    "blocks s = [] \<or> blk_x (last (blocks s)) = 50" "length (blocks s) = 8"
    "currentLevelIdx s = Suc 0" "currentBlockWidth s = 46"
    by (simp_all add: s_def)
  have ne: "blocks s \<noteq> []" using f(4) by auto
  show "reachable levelTwoLast" unfolding e using f(1) by (rule reachable_step)
  show "gameState levelTwoLast = PLAYING" unfolding e by (rule frame_playing(1)[OF f(2)])
  show "blocks levelTwoLast \<noteq> []" unfolding e frame_playing(2)[OF f(2)] by (rule ne)
  show "blk_x (last (blocks levelTwoLast)) = 50"
    unfolding e frame_playing(2)[OF f(2)] using f(3) ne by simp
  show "length (blocks levelTwoLast) = 8" unfolding e frame_playing(2)[OF f(2)] by (rule f(4))
  show "currentLevelIdx levelTwoLast = Suc 0"
    unfolding e frame_playing(6)[OF f(2)] by (rule f(5))
  show "currentBlockWidth levelTwoLast = 46"
    unfolding e frame_playing(3)[OF f(2)] by (rule f(6))
  have "hookX levelTwoLast = 50 + sin (6250 * pi / 147 *
      (baseSpeed (LEVELS ! currentLevelIdx s) *
       (1 + real (length (blocks s)) * 0.05) * 0.002)) * 45"
    unfolding e by (rule frame_playing(7)[OF f(2)])
  also have "\<dots> = 50 + sin (pi / 6) * 45"
    by (simp only: f level2_config level2_angle)
  also have "\<dots> = 145 / 2" by (simp add: sin_30)
  finally show "hookX levelTwoLast = 145 / 2" .
qed



section \<open>Claims\<close>

text \<open>
  C1. Every drop evaluated while playing whose hook is at most 3 away from the centre of
  the block below (from 50 over the base platform) is a perfect drop: the block placed
  has the pending width, which stays the pending width, it is centred on the block below
  and not at the hook, the score grows by 20 plus 5 times the combo before the drop, and
  the combo grows by one. The first drop of a session of level 1 with pending width 48
  and the hook at 50 gives score 20, combo 1 and a block of width 48 centred at 50; so
  does the first drop after the start from the menu.
\<close>

theorem perfect_drop:
  "(reachable st \<and> gameState st = PLAYING \<and>
    \<bar>hookX st - (if blocks st = [] then 50 else blk_x (last (blocks st)))\<bar> \<le> 3 \<longrightarrow>
      (let st' = handleDrop now st in
         dropOutcome st st' = Perfect \<and> gameState st' \<noteq> GAME_OVER \<and>
         butlast (blocks st') = blocks st \<and> blocks st' \<noteq> [] \<and>
         length (blocks st') = Suc (length (blocks st)) \<and>
         isPerfect (last (blocks st')) \<and>
         blk_width (last (blocks st')) = currentBlockWidth st \<and>
         currentBlockWidth st' = currentBlockWidth st \<and>
         blk_x (last (blocks st')) =
           (if blocks st = [] then 50 else blk_x (last (blocks st))) \<and>
         score st' = score st + (20 + 5 * combo st) \<and>
         combo st' = combo st + 1)) \<and>
   (reachable st \<and> gameState st = PLAYING \<and> currentLevelIdx st = 0 \<and> blocks st = [] \<and>
    currentBlockWidth st = 48 \<and> hookX st = 50 \<longrightarrow>
      (let st' = handleDrop now st in
         score st' = 20 \<and> combo st' = 1 \<and> length (blocks st') = 1 \<and>
         blk_width (last (blocks st')) = 48 \<and> blk_x (last (blocks st')) = 50)) \<and>
   (let st0 = step ClickPlay initialState; st' = step (Drop now) st0 in
      currentLevelIdx st0 = 0 \<and> blocks st0 = [] \<and> hookX st0 = 50 \<and>
      score st' = 20 \<and> combo st' = 1 \<and> length (blocks st') = 1 \<and>
      blk_width (last (blocks st')) = 48 \<and> blk_x (last (blocks st')) = 50)"
proof -
  have gen: "let st' = handleDrop now st in
         dropOutcome st st' = Perfect \<and> gameState st' \<noteq> GAME_OVER \<and>
         butlast (blocks st') = blocks st \<and> blocks st' \<noteq> [] \<and>
         length (blocks st') = Suc (length (blocks st)) \<and>
         isPerfect (last (blocks st')) \<and>
         blk_width (last (blocks st')) = currentBlockWidth st \<and>
         currentBlockWidth st' = currentBlockWidth st \<and>
         blk_x (last (blocks st')) =
           (if blocks st = [] then 50 else blk_x (last (blocks st))) \<and>
         score st' = score st + (20 + 5 * combo st) \<and>
         combo st' = combo st + 1"
    if a: "reachable st \<and> gameState st = PLAYING \<and>
      \<bar>hookX st - (if blocks st = [] then 50 else blk_x (last (blocks st)))\<bar> \<le> 3"
    for st
  proof -
    have pl: "gameState st = PLAYING" and nd: "\<not> isDroppingRef st"
      and w5: "5 \<le> currentBlockWidth st"
      using a reachable_playing by blast+
    have t: "absDiff st \<le> PERFECT_TOLERANCE"
      using a by (simp only: absDiff_centre PERFECT_TOLERANCE_def)
    have le: "absDiff st \<le> currentBlockWidth st"
      using t w5 by (simp add: PERFECT_TOLERANCE_def)
    note eq = handleDrop_perfect[OF pl nd le t, of now]
    show ?thesis
      using pl
      by (simp add: eq Let_def dropOutcome_def addBlock_fields addBlock_gameState
          previousBlock_centre)
  qed
  have scen: "let st' = handleDrop now st in
         score st' = 20 \<and> combo st' = 1 \<and> length (blocks st') = 1 \<and>
         blk_width (last (blocks st')) = 48 \<and> blk_x (last (blocks st')) = 50"
    if b: "reachable st \<and> gameState st = PLAYING \<and> currentLevelIdx st = 0 \<and>
      blocks st = [] \<and> currentBlockWidth st = 48 \<and> hookX st = 50"
  proof -
    have z: "score st = 0" "combo st = 0"
      using b fresh_session_zero[of st] by simp_all
    have c: "reachable st \<and> gameState st = PLAYING \<and>
      \<bar>hookX st - (if blocks st = [] then 50 else blk_x (last (blocks st)))\<bar> \<le> 3"
      using b by simp
    show ?thesis using gen[OF c] b z by (simp add: Let_def)
  qed
  have menu: "let st0 = step ClickPlay initialState; st' = step (Drop now) st0 in
      currentLevelIdx st0 = 0 \<and> blocks st0 = [] \<and> hookX st0 = 50 \<and>
      score st' = 20 \<and> combo st' = 1 \<and> length (blocks st') = 1 \<and>
      blk_width (last (blocks st')) = 48 \<and> blk_x (last (blocks st')) = 50"
    by (simp add: eval_defs)
  show ?thesis using gen[of st] scen menu by blast
qed

theorem perfect_drop_witness:
  "reachable perfectPlay \<and> gameState perfectPlay = PLAYING \<and> blocks perfectPlay \<noteq> [] \<and>
   blk_x (last (blocks perfectPlay)) = 80 \<and> hookX perfectPlay = 82 \<and>
   currentBlockWidth perfectPlay = 18 \<and> score perfectPlay = 30 \<and> combo perfectPlay = 1 \<and>
   dropOutcome perfectPlay (handleDrop 3 perfectPlay) = Perfect \<and>
   blk_x (last (blocks (handleDrop 3 perfectPlay))) = 80 \<and>
   blk_width (last (blocks (handleDrop 3 perfectPlay))) = 18 \<and>
   currentBlockWidth (handleDrop 3 perfectPlay) = 18 \<and>
   score (handleDrop 3 perfectPlay) = 55 \<and> combo (handleDrop 3 perfectPlay) = 2 \<and>
   reachable (step ClickPlay initialState) \<and>
   currentBlockWidth (step ClickPlay initialState) = 48 \<and>
   score (handleDrop 1 (step ClickPlay initialState)) = 20 \<and>
   combo (handleDrop 1 (step ClickPlay initialState)) = 1 \<and>
   blk_width (last (blocks (handleDrop 1 (step ClickPlay initialState)))) = 48 \<and>
   blk_x (last (blocks (handleDrop 1 (step ClickPlay initialState)))) = 50"
proof -
  note f = perfectPlay_facts
  have h: "\<bar>hookX perfectPlay -
      (if blocks perfectPlay = [] then 50 else blk_x (last (blocks perfectPlay)))\<bar> \<le> 3"
    by (simp add: f)
  from perfect_drop[of perfectPlay 3] f(1,2) h
  have p: "dropOutcome perfectPlay (handleDrop 3 perfectPlay) = Perfect \<and>
   blk_x (last (blocks (handleDrop 3 perfectPlay))) = 80 \<and>
   blk_width (last (blocks (handleDrop 3 perfectPlay))) = 18 \<and>
   currentBlockWidth (handleDrop 3 perfectPlay) = 18 \<and>
   score (handleDrop 3 perfectPlay) = 55 \<and> combo (handleDrop 3 perfectPlay) = 2"
    by (simp add: Let_def f)
  define s0 where "s0 = step ClickPlay initialState"
  have r: "reachable s0" unfolding s0_def by (intro reachable.intros)
  have g: "gameState s0 = PLAYING" "currentLevelIdx s0 = 0" "blocks s0 = []"
    "currentBlockWidth s0 = 48" "hookX s0 = 50"
    by (simp_all add: s0_def eval_defs)
  from perfect_drop[of s0 1] r g
  have q: "score (handleDrop 1 s0) = 20 \<and> combo (handleDrop 1 s0) = 1 \<and>
    blk_width (last (blocks (handleDrop 1 s0))) = 48 \<and>
    blk_x (last (blocks (handleDrop 1 s0))) = 50"
    by (simp add: Let_def)
  show ?thesis
    using f p r g(4) q unfolding s0_def by blast
qed

text \<open>
  C2. A drop while playing is a miss exactly when the distance of the hook from the
  centre of the block below exceeds the pending width, or exceeds 3 while the pending
  width minus the distance is below 5. On a miss no block is appended and the game is
  over; otherwise one block is appended and the game is not over.
\<close>

theorem miss_iff:
  "reachable st \<and> gameState st = PLAYING \<longrightarrow>
     (let centre = (if blocks st = [] then 50 else blk_x (last (blocks st)));
          offset = \<bar>hookX st - centre\<bar>;
          st' = handleDrop now st in
        (dropOutcome st st' = Miss \<longleftrightarrow>
           (offset > currentBlockWidth st \<or>
            (offset > 3 \<and> currentBlockWidth st - offset < 5))) \<and>
        (dropOutcome st st' = Miss \<longrightarrow>
           blocks st' = blocks st \<and> gameState st' = GAME_OVER) \<and>
        (dropOutcome st st' \<noteq> Miss \<longrightarrow>
           butlast (blocks st') = blocks st \<and> blocks st' \<noteq> [] \<and>
           gameState st' \<noteq> GAME_OVER))"
proof
  assume a: "reachable st \<and> gameState st = PLAYING"
  from drop_miss_cases[of st now] a
  have m: "(dropOutcome st (handleDrop now st) = Miss \<longleftrightarrow>
           (absDiff st > currentBlockWidth st \<or>
            (absDiff st > PERFECT_TOLERANCE \<and> currentBlockWidth st - absDiff st < 5)))"
    and n: "dropOutcome st (handleDrop now st) = Miss \<longrightarrow>
           blocks (handleDrop now st) = blocks st \<and> gameState (handleDrop now st) = GAME_OVER"
    by (simp_all add: Let_def)
  have pl: "gameState st = PLAYING" and nd: "\<not> isDroppingRef st"
    using a reachable_playing(1) by blast+
  have k: "dropOutcome st (handleDrop now st) \<noteq> Miss \<longrightarrow>
           butlast (blocks (handleDrop now st)) = blocks st \<and>
           blocks (handleDrop now st) \<noteq> [] \<and> gameState (handleDrop now st) \<noteq> GAME_OVER"
  proof
    assume nm: "dropOutcome st (handleDrop now st) \<noteq> Miss"
    then have c: "absDiff st \<le> currentBlockWidth st"
      "absDiff st \<le> PERFECT_TOLERANCE \<or> \<not> currentBlockWidth st - absDiff st < 5"
      using m by auto
    show "butlast (blocks (handleDrop now st)) = blocks st \<and>
           blocks (handleDrop now st) \<noteq> [] \<and> gameState (handleDrop now st) \<noteq> GAME_OVER"
    proof (cases "absDiff st \<le> PERFECT_TOLERANCE")
      case True
      then show ?thesis using pl c
        by (simp add: handleDrop_perfect[OF pl nd] addBlock_fields addBlock_gameState)
    next
      case False
      then show ?thesis using pl c
        by (simp add: handleDrop_good[OF pl nd] addBlock_fields addBlock_gameState)
    qed
  qed
  show "let centre = (if blocks st = [] then 50 else blk_x (last (blocks st)));
          offset = \<bar>hookX st - centre\<bar>;
          st' = handleDrop now st in
        (dropOutcome st st' = Miss \<longleftrightarrow>
           (offset > currentBlockWidth st \<or>
            (offset > 3 \<and> currentBlockWidth st - offset < 5))) \<and>
        (dropOutcome st st' = Miss \<longrightarrow>
           blocks st' = blocks st \<and> gameState st' = GAME_OVER) \<and>
        (dropOutcome st st' \<noteq> Miss \<longrightarrow>
           butlast (blocks st') = blocks st \<and> blocks st' \<noteq> [] \<and>
           gameState st' \<noteq> GAME_OVER)"
    unfolding Let_def using m n k
    by (simp only: absDiff_centre PERFECT_TOLERANCE_def)
qed

theorem miss_iff_witness:
  "reachable comboPlay \<and> gameState comboPlay = PLAYING \<and>
   blk_x (last (blocks comboPlay)) = 80 \<and> hookX comboPlay = 50 \<and>
   currentBlockWidth comboPlay = 18 \<and>
   dropOutcome comboPlay (handleDrop 3 comboPlay) = Miss \<and>
   blocks (handleDrop 3 comboPlay) = blocks comboPlay \<and>
   gameState (handleDrop 3 comboPlay) = GAME_OVER \<and>
   reachable shortPlay \<and> gameState shortPlay = PLAYING \<and>
   blk_x (last (blocks shortPlay)) = 80 \<and> hookX shortPlay = 65 \<and>
   currentBlockWidth shortPlay = 18 \<and>
   dropOutcome shortPlay (handleDrop 3 shortPlay) = Miss \<and>
   blocks (handleDrop 3 shortPlay) = blocks shortPlay \<and>
   gameState (handleDrop 3 shortPlay) = GAME_OVER \<and>
   reachable trimPlay \<and> gameState trimPlay = PLAYING \<and>
   blk_x (last (blocks trimPlay)) = 80 \<and> hookX trimPlay = 145 / 2 \<and>
   currentBlockWidth trimPlay = 18 \<and>
   dropOutcome trimPlay (handleDrop 3 trimPlay) \<noteq> Miss \<and>
   butlast (blocks (handleDrop 3 trimPlay)) = blocks trimPlay \<and>
   gameState (handleDrop 3 trimPlay) \<noteq> GAME_OVER"
proof -
  note c = comboPlay_facts and s = shortPlay_facts and t = trimPlay_facts
  have cn: "blocks comboPlay \<noteq> []" using c by auto
  from miss_iff[of comboPlay 3] comboPlay_reachable c cn
  have a: "dropOutcome comboPlay (handleDrop 3 comboPlay) = Miss \<and>
   blocks (handleDrop 3 comboPlay) = blocks comboPlay \<and>
   gameState (handleDrop 3 comboPlay) = GAME_OVER"
    by (simp add: Let_def)
  from miss_iff[of shortPlay 3] s
  have b: "dropOutcome shortPlay (handleDrop 3 shortPlay) = Miss \<and>
   blocks (handleDrop 3 shortPlay) = blocks shortPlay \<and>
   gameState (handleDrop 3 shortPlay) = GAME_OVER"
    by (simp add: Let_def)
  from miss_iff[of trimPlay 3] t
  have d: "dropOutcome trimPlay (handleDrop 3 trimPlay) \<noteq> Miss \<and>
   butlast (blocks (handleDrop 3 trimPlay)) = blocks trimPlay \<and>
   gameState (handleDrop 3 trimPlay) \<noteq> GAME_OVER"
    by (simp add: Let_def)
  show ?thesis using comboPlay_reachable c s t a b d by blast
qed

text \<open>
  C3. A drop while playing whose hook is more than 3 and at most the pending width away
  from the centre of the block below, with pending width minus distance at least 5, is a
  good drop: the block placed has the pending width minus the distance, which becomes
  the pending width and is strictly smaller than before, it is centred at the hook, the
  score grows by exactly 10 and the combo becomes 0.
\<close>

theorem good_drop:
  "reachable st \<and> gameState st = PLAYING \<longrightarrow>
     (let centre = (if blocks st = [] then 50 else blk_x (last (blocks st)));
          offset = \<bar>hookX st - centre\<bar>;
          st' = handleDrop now st in
        3 < offset \<and> offset \<le> currentBlockWidth st \<and> 5 \<le> currentBlockWidth st - offset
        \<longrightarrow>
          dropOutcome st st' = Good \<and> gameState st' \<noteq> GAME_OVER \<and>
          butlast (blocks st') = blocks st \<and> blocks st' \<noteq> [] \<and>
          length (blocks st') = Suc (length (blocks st)) \<and>
          \<not> isPerfect (last (blocks st')) \<and>
          blk_width (last (blocks st')) = currentBlockWidth st - offset \<and>
          currentBlockWidth st' = currentBlockWidth st - offset \<and>
          currentBlockWidth st' < currentBlockWidth st \<and>
          blk_x (last (blocks st')) = hookX st \<and>
          score st' = score st + 10 \<and>
          combo st' = 0)"
proof
  assume a: "reachable st \<and> gameState st = PLAYING"
  have pl: "gameState st = PLAYING" and nd: "\<not> isDroppingRef st"
    using a reachable_playing(1) by blast+
  have "dropOutcome st (handleDrop now st) = Good \<and> gameState (handleDrop now st) \<noteq> GAME_OVER \<and>
          butlast (blocks (handleDrop now st)) = blocks st \<and> blocks (handleDrop now st) \<noteq> [] \<and>
          length (blocks (handleDrop now st)) = Suc (length (blocks st)) \<and>
          \<not> isPerfect (last (blocks (handleDrop now st))) \<and>
          blk_width (last (blocks (handleDrop now st))) = currentBlockWidth st - absDiff st \<and>
          currentBlockWidth (handleDrop now st) = currentBlockWidth st - absDiff st \<and>
          currentBlockWidth (handleDrop now st) < currentBlockWidth st \<and>
          blk_x (last (blocks (handleDrop now st))) = hookX st \<and>
          score (handleDrop now st) = score st + 10 \<and>
          combo (handleDrop now st) = 0"
    if c: "3 < absDiff st \<and> absDiff st \<le> currentBlockWidth st \<and>
           5 \<le> currentBlockWidth st - absDiff st"
  proof -
    have le: "absDiff st \<le> currentBlockWidth st"
      and np: "\<not> absDiff st \<le> PERFECT_TOLERANCE"
      and ns: "\<not> currentBlockWidth st - absDiff st < 5"
      using c by (simp_all add: PERFECT_TOLERANCE_def)
    have pos: "0 < absDiff st" using c by simp
    show ?thesis
      using pl pos
      by (simp add: handleDrop_good[OF pl nd le np ns] dropOutcome_def
          addBlock_fields addBlock_gameState)
  qed
  then show "let centre = (if blocks st = [] then 50 else blk_x (last (blocks st)));
          offset = \<bar>hookX st - centre\<bar>;
          st' = handleDrop now st in
        3 < offset \<and> offset \<le> currentBlockWidth st \<and> 5 \<le> currentBlockWidth st - offset
        \<longrightarrow>
          dropOutcome st st' = Good \<and> gameState st' \<noteq> GAME_OVER \<and>
          butlast (blocks st') = blocks st \<and> blocks st' \<noteq> [] \<and>
          length (blocks st') = Suc (length (blocks st)) \<and>
          \<not> isPerfect (last (blocks st')) \<and>
          blk_width (last (blocks st')) = currentBlockWidth st - offset \<and>
          currentBlockWidth st' = currentBlockWidth st - offset \<and>
          currentBlockWidth st' < currentBlockWidth st \<and>
          blk_x (last (blocks st')) = hookX st \<and>
          score st' = score st + 10 \<and>
          combo st' = 0"
    unfolding Let_def absDiff_centre[symmetric] by blast
qed

theorem good_drop_witness:
  "reachable trimPlay \<and> gameState trimPlay = PLAYING \<and> blocks trimPlay \<noteq> [] \<and>
   blk_x (last (blocks trimPlay)) = 80 \<and> hookX trimPlay = 145 / 2 \<and>
   currentBlockWidth trimPlay = 18 \<and> score trimPlay = 30 \<and> combo trimPlay = 1 \<and>
   dropOutcome trimPlay (handleDrop 3 trimPlay) = Good \<and>
   blk_x (last (blocks (handleDrop 3 trimPlay))) = 145 / 2 \<and>
   blk_width (last (blocks (handleDrop 3 trimPlay))) = 21 / 2 \<and>
   currentBlockWidth (handleDrop 3 trimPlay) = 21 / 2 \<and>
   score (handleDrop 3 trimPlay) = 40 \<and> combo (handleDrop 3 trimPlay) = 0"
proof -
  note t = trimPlay_facts
  from good_drop[of trimPlay 3] t
  have "dropOutcome trimPlay (handleDrop 3 trimPlay) = Good \<and>
   blk_x (last (blocks (handleDrop 3 trimPlay))) = 145 / 2 \<and>
   blk_width (last (blocks (handleDrop 3 trimPlay))) = 21 / 2 \<and>
   currentBlockWidth (handleDrop 3 trimPlay) = 21 / 2 \<and>
   score (handleDrop 3 trimPlay) = 40 \<and> combo (handleDrop 3 trimPlay) = 0"
    by (simp add: Let_def)
  with t show ?thesis by blast
qed

text \<open>
  C4. The claim is that the combo is 0 after every drop that is not perfect, a total
  miss included. The play below is reachable: a trimmed drop, a perfect drop that
  raises the combo to 1, then a drop whose offset 30 exceeds the pending width 18. The
  total miss ends the game and leaves the combo at 1: \<open>setCombo(0)\<close> sits in the
  trimming branch only, after the early return of the total miss.
\<close>

theorem total_miss_keeps_combo:
  "reachable comboPlay \<and> gameState comboPlay = PLAYING \<and> combo comboPlay = 1 \<and>
   currentBlockWidth comboPlay = 18 \<and> absDiff comboPlay = 30 \<and>
   dropOutcome comboPlay (step (Drop 3) comboPlay) = Miss \<and>
   gameState (step (Drop 3) comboPlay) = GAME_OVER \<and>
   combo (step (Drop 3) comboPlay) = 1"
proof -
  note f = comboPlay_facts
  have nd: "\<not> isDroppingRef comboPlay"
    using comboPlay_reachable by (intro inv_not_dropping reachable_inv)
  have ne: "blocks comboPlay \<noteq> []" using f by auto
  have ad: "absDiff comboPlay = 30"
    using ne f by (simp add: absDiff_def previousBlock_def)
  have "handleDrop 3 comboPlay = comboPlay\<lparr>gameState := GAME_OVER\<rparr>"
    by (rule handleDrop_total_miss) (simp_all add: f ad nd)
  then show ?thesis using f ad comboPlay_reachable by (simp add: dropOutcome_def)
qed

text \<open>
  C5. The claim is that the hook position is computed from the time elapsed since the
  session started. \<open>updateHookPosition\<close> uses the frame timestamp itself;
  \<open>startTimeRef\<close> is recorded and reset but never subtracted. At the first frame of
  a session, with timestamp 500, the elapsed time is 0 and the specified position is 50,
  while the hook is at \<open>50 + 45 sin 1.2\<close>, above 50.
\<close>

theorem hook_phase_not_reset:
  "(let st = run [ClickPlay, Frame 500] initialState;
        elapsed = 500 - the (startTimeRef st)
    in gameState st = PLAYING \<and> startTimeRef st = Some 500 \<and> elapsed = 0 \<and>
       hookX st = 50 + sin (6 / 5) * 45 \<and>
       spec_position elapsed (currentLevelConfig st) (length (blocks st)) = 50 \<and>
       50 < hookX st)"
proof -
  have "(0::real) < 6 / 5" "(6::real) / 5 < pi"
    using pi_ge_two by simp_all
  then have "0 < sin (6 / 5 :: real)" by (rule sin_gt_zero)
  moreover have "(500::real) * ((1 + 2 / 10) * 2 / 1000) = 6 / 5" by simp
  ultimately show ?thesis
    by (simp add: eval_defs spec_position_def)
qed

text \<open>
  C6. The claim is that advancing from the last level wraps to level 0 and resets the
  session with the configuration of level 0, pending width 48. A completed last level is
  reachable; there the queued callback is the \<open>startGame\<close> of the render of the last
  level, so the pending width becomes that level's initial width 30, while the level
  index is 0 and the initial width of level 0 is 48.
\<close>

theorem wrap_uses_stale_level:
  "\<exists>st. reachable st \<and> gameState st = LEVEL_COMPLETE \<and> currentLevelIdx st = 9 \<and>
     (let st' = run [ClickNext, Timeout] st
      in gameState st' = PLAYING \<and> currentLevelIdx st' = 0 \<and> blocks st' = [] \<and>
         currentBlockWidth st' = 30 \<and>
         initialWidth (currentLevelConfig st') = 48)"
proof -
  obtain st where st: "reachable st" "gameState st = LEVEL_COMPLETE" "hookX st = 50"
    "currentLevelIdx st = 9" "timers st = []"
    using level_complete_reachable[of 9] by (auto simp: length_LEVELS)
  have "let st' = run [ClickNext, Timeout] st
      in gameState st' = PLAYING \<and> currentLevelIdx st' = 0 \<and> blocks st' = [] \<and>
         currentBlockWidth st' = 30 \<and>
         initialWidth (currentLevelConfig st') = 48"
    using st(2,4,5)
    by (simp add: run_def nextLevel_def length_LEVELS startGame_def Let_def
        currentLevelConfig_def LEVELS_nth initialWidth_mkLevel)
  with st show ?thesis by blast
qed

text \<open>
  C7. Every drop while playing that is not a miss appends one block; when the stack
  then holds at least the target number of blocks of the current level, entry
  \<open>currentLevelIdx\<close> of \<open>LEVELS\<close>, the state becomes \<open>LEVEL_COMPLETE\<close>,
  whether the drop was perfect or good, and otherwise the state stays \<open>PLAYING\<close>.
\<close>

theorem level_complete_on_target:
  "reachable st \<and> gameState st = PLAYING \<and> gameState (handleDrop now st) \<noteq> GAME_OVER \<longrightarrow>
     (let st' = handleDrop now st in
        length (blocks st') = Suc (length (blocks st)) \<and>
        currentLevelIdx st' = currentLevelIdx st \<and>
        (targetBlocks (LEVELS ! currentLevelIdx st) \<le> length (blocks st')
           \<longrightarrow> gameState st' = LEVEL_COMPLETE) \<and>
        (length (blocks st') < targetBlocks (LEVELS ! currentLevelIdx st)
           \<longrightarrow> gameState st' = PLAYING))"
proof
  assume a: "reachable st \<and> gameState st = PLAYING \<and>
    gameState (handleDrop now st) \<noteq> GAME_OVER"
  then have nm: "dropOutcome st (handleDrop now st) \<noteq> Miss"
    by (simp add: dropOutcome_def)
  have pl: "gameState st = PLAYING" and nd: "\<not> isDroppingRef st"
    using a reachable_playing(1) by blast+
  have idx: "currentLevelIdx (handleDrop now st) = currentLevelIdx st"
    by (simp add: handleDrop_def Let_def endGame_def addBlock_eq)
  from drop_target_cases[of st now] a nm
  have "length (blocks (handleDrop now st)) = Suc (length (blocks st)) \<and>
        (targetBlocks (currentLevelConfig st) \<le> length (blocks (handleDrop now st))
           \<longrightarrow> gameState (handleDrop now st) = LEVEL_COMPLETE) \<and>
        (length (blocks (handleDrop now st)) < targetBlocks (currentLevelConfig st)
           \<longrightarrow> gameState (handleDrop now st) = PLAYING)"
    by (simp add: Let_def)
  then show "let st' = handleDrop now st in
        length (blocks st') = Suc (length (blocks st)) \<and>
        currentLevelIdx st' = currentLevelIdx st \<and>
        (targetBlocks (LEVELS ! currentLevelIdx st) \<le> length (blocks st')
           \<longrightarrow> gameState st' = LEVEL_COMPLETE) \<and>
        (length (blocks st') < targetBlocks (LEVELS ! currentLevelIdx st)
           \<longrightarrow> gameState st' = PLAYING)"
    by (simp add: Let_def currentLevelConfig_def idx)
qed

theorem level_complete_on_target_witness:
  "reachable levelTwoPlay \<and> gameState levelTwoPlay = PLAYING \<and>
   currentLevelIdx levelTwoPlay = 1 \<and> targetBlocks (LEVELS ! 1) = 9 \<and>
   length (blocks levelTwoPlay) = 6 \<and>
   gameState (handleDrop 19 levelTwoPlay) \<noteq> GAME_OVER \<and>
   length (blocks (handleDrop 19 levelTwoPlay)) = 7 \<and>
   gameState (handleDrop 19 levelTwoPlay) = PLAYING \<and>
   reachable levelTwoLast \<and> gameState levelTwoLast = PLAYING \<and>
   currentLevelIdx levelTwoLast = 1 \<and> length (blocks levelTwoLast) = 8 \<and>
   dropOutcome levelTwoLast (handleDrop 19 levelTwoLast) = Good \<and>
   length (blocks (handleDrop 19 levelTwoLast)) = 9 \<and>
   gameState (handleDrop 19 levelTwoLast) = LEVEL_COMPLETE"
proof -
  note p = levelTwoPlay_facts and l = levelTwoLast_facts
  have ip: "game_inv levelTwoPlay" using p(1) by (rule reachable_inv)
  have g1: "gameState (handleDrop 19 levelTwoPlay) \<noteq> GAME_OVER"
    using rest_drop(6)[OF ip p(2,3,4), of 19] by simp
  from level_complete_on_target[of levelTwoPlay 19] p(1,2) g1
  have a: "length (blocks (handleDrop 19 levelTwoPlay)) = 7 \<and>
   gameState (handleDrop 19 levelTwoPlay) = PLAYING"
    by (simp add: Let_def p level2_config)
  have nd: "\<not> isDroppingRef levelTwoLast"
    using l(1) by (intro inv_not_dropping reachable_inv)
  have ad: "absDiff levelTwoLast = 45 / 2"
    using l(5) by (simp add: absDiff_def previousBlock_def l)
  have hd: "handleDrop 19 levelTwoLast =
    addBlock 19 False (hookX levelTwoLast) (currentBlockWidth levelTwoLast - absDiff levelTwoLast)
      levelTwoLast (levelTwoLast\<lparr> combo := 0, score := score levelTwoLast + 10,
         feedback := Some good \<rparr>)"
    by (rule handleDrop_good) (simp_all add: l ad nd PERFECT_TOLERANCE_def)
  have o: "dropOutcome levelTwoLast (handleDrop 19 levelTwoLast) = Good"
    and g2: "gameState (handleDrop 19 levelTwoLast) \<noteq> GAME_OVER"
    by (simp_all add: hd dropOutcome_def addBlock_fields addBlock_gameState l)
  from level_complete_on_target[of levelTwoLast 19] l(1,2) g2
  have b: "length (blocks (handleDrop 19 levelTwoLast)) = 9 \<and>
   gameState (handleDrop 19 levelTwoLast) = LEVEL_COMPLETE"
    by (simp add: Let_def l level2_config)
  show ?thesis using p l a b o g1 level2_config(1) by simp
qed



text \<open>
  C9. The claim is that the score never decreases while playing and that nothing but a
  drop changes it. The reset that \<open>nextLevel\<close> queues for 50 ms is not tied to the
  state in which it runs: after a retry and a perfect drop made before it fires, the
  state is \<open>PLAYING\<close> with score 20, and the queued reset sets the score to 0 while
  the state stays \<open>PLAYING\<close>.
\<close>

theorem stale_reset_lowers_score:
  "reachable racePlay \<and> gameState racePlay = PLAYING \<and> score racePlay = 20 \<and>
   gameState (step Timeout racePlay) = PLAYING \<and> score (step Timeout racePlay) = 0 \<and>
   score (step Timeout racePlay) < score racePlay"
  using racePlay_reachable by (simp add: racePlay_facts)




end
